theory Spec2Isabelle
  imports Complex_Main
begin

section \<open>Python values, exceptions and dictionaries\<close>

text \<open>
  The exceptions that leave the modelled code. The built-in ones carry Python's names and
  are those the statements of the two modules raise themselves (a subscript, an attribute
  access, an unpacking, a call, the construction of the table). \<open>External\<close> is an
  exception raised inside a collaborator (a sampler, the data-loader builder, the model
  class, \<open>fit\<close>, the experiment tracker, the serializer) and passed on unchanged; it
  carries a description of the exception.
\<close>

datatype error =
    KeyError string
  | TypeError
  | ValueError
  | IndexError
  | AttributeError
  | RuntimeError
  | External string

text \<open>
  A Python \<open>dict\<close> is an association list with distinct keys in insertion order.
  \<open>dict_set\<close> is \<open>d[k] = v\<close>: it overwrites in place or appends at the end.
\<close>

type_synonym ('k, 'v) dict = "('k \<times> 'v) list"

fun dict_get :: "('k, 'v) dict \<Rightarrow> 'k \<Rightarrow> 'v option" where
  "dict_get [] k = None"
| "dict_get ((k', v) # d) k = (if k' = k then Some v else dict_get d k)"

fun dict_set :: "('k, 'v) dict \<Rightarrow> 'k \<Rightarrow> 'v \<Rightarrow> ('k, 'v) dict" where
  "dict_set [] k v = [(k, v)]"
| "dict_set ((k', v') # d) k v = (if k' = k then (k, v) # d else (k', v') # dict_set d k v)"

definition dict_contains :: "('k, 'v) dict \<Rightarrow> 'k \<Rightarrow> bool" where
  "dict_contains d k = (dict_get d k \<noteq> None)"

definition dict_keys :: "('k, 'v) dict \<Rightarrow> 'k list" where
  "dict_keys d = map fst d"

text \<open>
  A collaborator returns its value or the description of the exception it raised;
  \<open>external\<close> is the call seen from the calling code.
\<close>

definition external :: "string + 'a \<Rightarrow> error + 'a" where
  "external r = (case r of Inl c \<Rightarrow> Inl (External c) | Inr x \<Rightarrow> Inr x)"

section \<open>wrappers.py\<close>

subsection \<open>Criterion\<close>

record 'o AbstractCriterion =
  name :: string
  reduction_function :: "('o \<Rightarrow> 'o) option"

record ('p, 't, 'o) Criterion = "'o AbstractCriterion" +
  loss_function :: "'p \<Rightarrow> 't \<Rightarrow> 'o"

definition Criterion_init ::
  "string \<Rightarrow> ('p \<Rightarrow> 't \<Rightarrow> 'o) \<Rightarrow> ('o \<Rightarrow> 'o) option \<Rightarrow> ('p, 't, 'o) Criterion" where
  "Criterion_init nm lf rf = \<lparr>name = nm, reduction_function = rf, loss_function = lf\<rparr>"

definition Criterion_call :: "('p, 't, 'o) Criterion \<Rightarrow> 'p \<Rightarrow> 't \<Rightarrow> 'o" where
  "Criterion_call self predicted_labels target_labels =
     (let output = loss_function self predicted_labels target_labels in output)"

subsection \<open>MultyHeadCriterion\<close>

record ('p, 't, 'o) MultyHeadCriterion = "'o AbstractCriterion" +
  loss_functions :: "(string, 'p \<Rightarrow> 't \<Rightarrow> 'o) dict"
  loss_weights :: "int list"

definition MultyHeadCriterion_init ::
  "string \<Rightarrow> (string, 'p \<Rightarrow> 't \<Rightarrow> 'o) dict \<Rightarrow> int list \<Rightarrow> ('o \<Rightarrow> 'o) option
     \<Rightarrow> ('p, 't, 'o) MultyHeadCriterion" where
  "MultyHeadCriterion_init nm lfs lws rf =
     \<lparr>name = nm, reduction_function = rf, loss_functions = lfs, loss_weights = lws\<rparr>"

text \<open>
  \<open>for head_key, current_head_loss in self.loss_functions\<close> iterates the dictionary's
  keys and unpacks each key, a string, into two targets: a string of two characters
  gives its two one-character strings, any other length raises \<open>ValueError\<close>.
\<close>

fun unpack_pair :: "string \<Rightarrow> error + (string \<times> string)" where
  "unpack_pair [a, b] = Inr ([a], [b])"
| "unpack_pair _ = Inl ValueError"

text \<open>
  Calling a string: the arguments are evaluated first, left to right (each subscript may
  raise), then the call raises \<open>TypeError\<close>, a \<open>str\<close> not being callable.
\<close>

definition call_str :: "string \<Rightarrow> (error + 'p) \<Rightarrow> (error + 't) \<Rightarrow> error + 'o" where
  "call_str f a b =
     (case a of Inl e \<Rightarrow> Inl e
      | Inr _ \<Rightarrow> (case b of Inl e \<Rightarrow> Inl e | Inr _ \<Rightarrow> Inl TypeError))"

fun collect_head_losses ::
  "string list \<Rightarrow> (string \<Rightarrow> error + 'p) \<Rightarrow> (string \<Rightarrow> error + 't) \<Rightarrow> 'o list \<Rightarrow> error + 'o list" where
  "collect_head_losses [] predicted_labels target_labels losses = Inr losses"
| "collect_head_losses (k # ks) predicted_labels target_labels losses =
     (case unpack_pair k of
        Inl e \<Rightarrow> Inl e
      | Inr (head_key, current_head_loss) \<Rightarrow>
          (case call_str current_head_loss (predicted_labels head_key) (target_labels head_key) of
             Inl e \<Rightarrow> Inl e
           | Inr l \<Rightarrow> collect_head_losses ks predicted_labels target_labels (losses @ [l])))"

text \<open>
  The tensor operations of the last statement are parameters: the product of the weight
  list with a loss, and \<open>torch.sum(torch.stack(xs), dim=0)\<close>. \<open>torch.stack\<close> raises
  \<open>RuntimeError\<close> on an empty list.
\<close>

definition torch_stack :: "('o list \<Rightarrow> 'o) \<Rightarrow> 'o list \<Rightarrow> error + 'o" where
  "torch_stack stack xs = (case xs of [] \<Rightarrow> Inl RuntimeError | _ \<Rightarrow> Inr (stack xs))"

definition MultyHeadCriterion_call ::
  "('p, 't, 'o) MultyHeadCriterion \<Rightarrow> (int list \<Rightarrow> 'o \<Rightarrow> 'o) \<Rightarrow> ('o list \<Rightarrow> 'o) \<Rightarrow> ('o \<Rightarrow> 'o)
     \<Rightarrow> (string \<Rightarrow> error + 'p) \<Rightarrow> (string \<Rightarrow> error + 't) \<Rightarrow> error + 'o" where
  "MultyHeadCriterion_call self scale stack sum0 predicted_labels target_labels =
     (let loss_weights0 = ([] :: int list) in
      case collect_head_losses (dict_keys (loss_functions self)) predicted_labels target_labels [] of
        Inl e \<Rightarrow> Inl e
      | Inr losses \<Rightarrow>
          (case torch_stack stack
                  (map (\<lambda>(weight, current_loss). scale (loss_weights self) current_loss)
                       (zip loss_weights0 losses)) of
             Inl e \<Rightarrow> Inl e
           | Inr s \<Rightarrow> Inr (sum0 s)))"

subsection \<open>OptimizerWrapper\<close>

record ('n, 'v, 'opt) OptimizerWrapper =
  wrapper_name :: string
  optimizer_constructor :: "'n \<Rightarrow> (string, 'v) dict \<Rightarrow> 'opt"
  optimizer_partial_params :: "(string, 'v) dict"

text \<open>\<open>s.split(sep)\<close> for a one-character separator.\<close>

fun split :: "char \<Rightarrow> string \<Rightarrow> string list" where
  "split sep [] = [[]]"
| "split sep (c # cs) =
     (if c = sep then [] # split sep cs
      else (case split sep cs of w # ws \<Rightarrow> (c # w) # ws | [] \<Rightarrow> [[c]]))"

text \<open>
  Subscripting a list, \<open>xs[i]\<close>: position \<open>i\<close> from the front when \<open>i\<close> is not
  negative, position \<open>len(xs) + i\<close> when it is, and \<open>IndexError\<close> outside
  \<open>-len(xs) .. len(xs) - 1\<close>.
\<close>

definition py_index :: "'a list \<Rightarrow> int \<Rightarrow> error + 'a" where
  "py_index xs i =
     (if 0 \<le> i \<and> i < int (length xs) then Inr (xs ! nat i)
      else if i < 0 \<and> - int (length xs) \<le> i then Inr (xs ! nat (int (length xs) + i))
      else Inl IndexError)"

text \<open>
  \<open>__init__\<close>; the first argument is \<open>repr(optimizer_constructor)\<close>, which the
  constructor of the model, a function, does not carry.
\<close>

definition OptimizerWrapper_init ::
  "string \<Rightarrow> ('n \<Rightarrow> (string, 'v) dict \<Rightarrow> 'opt) \<Rightarrow> string \<Rightarrow> (string, 'v) dict option
     \<Rightarrow> error + ('n, 'v, 'opt) OptimizerWrapper" where
  "OptimizerWrapper_init constructor_repr optimizer_constructor0 identifier optimizer_partial_params0 =
     (case py_index (split CHR 0x27 constructor_repr) 1 of
        Inl e \<Rightarrow> Inl e
      | Inr quoted \<Rightarrow>
          (case py_index (split CHR ''.'' quoted) (- 1) of
             Inl e \<Rightarrow> Inl e
           | Inr nm \<Rightarrow>
               Inr \<lparr>wrapper_name = (if identifier \<noteq> [] then nm @ '' '' @ identifier else nm),
                    optimizer_constructor = optimizer_constructor0,
                    optimizer_partial_params =
                      (case optimizer_partial_params0 of None \<Rightarrow> [] | Some p \<Rightarrow> p)\<rparr>))"

definition get_optimizer :: "('n, 'v, 'opt) OptimizerWrapper \<Rightarrow> 'n \<Rightarrow> 'opt" where
  "get_optimizer self net_params =
     optimizer_constructor self net_params (optimizer_partial_params self)"

section \<open>model_selection.py\<close>

subsection \<open>Values and dictionary operations\<close>

text \<open>
  The values that hyperparameter dictionaries, fit histories and result tables hold.
  An object of the framework is kept with the one attribute the search code reads: the
  \<open>name\<close> of a criterion, a metric or an optimizer wrapper, the \<open>patience\<close> of an early
  stopper. An object stands for itself: two values of an object constructor are the same
  object exactly when they are equal.
\<close>

datatype pyval =
    PyNone
  | PyBool bool
  | PyInt int
  | PyFloat real
  | PyStr string
  | PyList "pyval list"
  | PyCriterion string
  | PyMetric string
  | PyOptimizerWrapper string
  | PyEarlyStopper int
  | PyClass string

type_synonym hyperparameters = "(string, pyval) dict"

definition dict_lookup :: "(string, 'v) dict \<Rightarrow> string \<Rightarrow> error + 'v" where
  "dict_lookup d k = (case dict_get d k of None \<Rightarrow> Inl (KeyError k) | Some v \<Rightarrow> Inr v)"

text \<open>\<open>d.pop(k)\<close>, the popped value dropped as the callers do.\<close>

definition dict_pop :: "(string, 'v) dict \<Rightarrow> string \<Rightarrow> error + (string, 'v) dict" where
  "dict_pop d k =
     (case dict_get d k of
        None \<Rightarrow> Inl (KeyError k)
      | Some _ \<Rightarrow> Inr (filter (\<lambda>kv. fst kv \<noteq> k) d))"

text \<open>\<open>{**a, **b}\<close>: the entries of \<open>a\<close>, then those of \<open>b\<close> stored over them.\<close>

definition dict_merge :: "('k, 'v) dict \<Rightarrow> ('k, 'v) dict \<Rightarrow> ('k, 'v) dict" where
  "dict_merge a b = fold (\<lambda>kv d. dict_set d (fst kv) (snd kv)) b a"

text \<open>
  \<open>a == b\<close> on values: booleans, integers and floats are compared as numbers
  (\<open>True == 1 == 1.0\<close>), lists element by element, everything else as it is.
\<close>

fun py_number :: "pyval \<Rightarrow> real option" where
  "py_number (PyBool b) = Some (if b then 1 else 0)"
| "py_number (PyInt n) = Some (real_of_int n)"
| "py_number (PyFloat x) = Some x"
| "py_number _ = None"

fun py_eq :: "pyval \<Rightarrow> pyval \<Rightarrow> bool"
  and py_eq_list :: "pyval list \<Rightarrow> pyval list \<Rightarrow> bool" where
  "py_eq (PyList xs) (PyList ys) = py_eq_list xs ys"
| "py_eq a b =
     (case py_number a of
        Some x \<Rightarrow> (case py_number b of Some y \<Rightarrow> x = y | None \<Rightarrow> False)
      | None \<Rightarrow> a = b)"
| "py_eq_list [] [] = True"
| "py_eq_list (x # xs) (y # ys) = (py_eq x y \<and> py_eq_list xs ys)"
| "py_eq_list _ _ = False"

text \<open>
  \<open>a == b\<close> on dictionaries: the same keys with equal values, whatever the order.
\<close>

definition dict_eq :: "hyperparameters \<Rightarrow> hyperparameters \<Rightarrow> bool" where
  "dict_eq a b =
     list_all (\<lambda>k. case dict_get a k of
                     None \<Rightarrow> False
                   | Some x \<Rightarrow> (case dict_get b k of None \<Rightarrow> False | Some y \<Rightarrow> py_eq x y))
       (dict_keys a @ dict_keys b)"

text \<open>
  \<open>d[k].append(arg)\<close>: the list is looked up first, then the argument is evaluated, then
  the value is appended.
\<close>

definition list_append_at ::
  "(string, 'a list) dict \<Rightarrow> string \<Rightarrow> (error + 'a) \<Rightarrow> error + (string, 'a list) dict" where
  "list_append_at d k arg =
     (case dict_lookup d k of
        Inl e \<Rightarrow> Inl e
      | Inr xs \<Rightarrow> (case arg of Inl e \<Rightarrow> Inl e | Inr v \<Rightarrow> Inr (dict_set d k (xs @ [v]))))"

text \<open>A \<open>for\<close> loop whose body may raise: the first exception ends the loop.\<close>

fun for_each :: "('a \<Rightarrow> 's \<Rightarrow> error + 's) \<Rightarrow> 'a list \<Rightarrow> 's \<Rightarrow> error + 's" where
  "for_each body [] s = Inr s"
| "for_each body (x # xs) s =
     (case body x s of Inl e \<Rightarrow> Inl e | Inr s' \<Rightarrow> for_each body xs s')"

text \<open>
  The items such a loop takes from its list: all of them, or those up to the one at which
  the body raises.
\<close>

fun iterated :: "('a \<Rightarrow> 's \<Rightarrow> error + 's) \<Rightarrow> 'a list \<Rightarrow> 's \<Rightarrow> 'a list" where
  "iterated body [] s = []"
| "iterated body (x # xs) s =
     x # (case body x s of Inl e \<Rightarrow> [] | Inr s' \<Rightarrow> iterated body xs s')"

definition enumerate_list :: "'a list \<Rightarrow> (nat \<times> 'a) list" where
  "enumerate_list xs = zip [0..<length xs] xs"

fun attr_name :: "pyval \<Rightarrow> error + string" where
  "attr_name (PyCriterion n) = Inr n"
| "attr_name (PyMetric n) = Inr n"
| "attr_name (PyOptimizerWrapper n) = Inr n"
| "attr_name _ = Inl AttributeError"

fun attr_patience :: "pyval \<Rightarrow> error + int" where
  "attr_patience (PyEarlyStopper p) = Inr p"
| "attr_patience _ = Inl AttributeError"

text \<open>Iterating a value in a \<open>for\<close> statement.\<close>

fun py_iter :: "pyval \<Rightarrow> error + pyval list" where
  "py_iter (PyList xs) = Inr xs"
| "py_iter (PyStr s) = Inr (map (\<lambda>c. PyStr [c]) s)"
| "py_iter _ = Inl TypeError"

subsection \<open>Enumeration of the combinations\<close>

text \<open>
  \<open>itertools.product(xs, ys)\<close>: the left component varies slowest. The iterators are
  lists here; \<open>tqdm\<close>, which wraps them in the source, yields the same items and only
  displays the progress.
\<close>

fun itertools_product :: "'a list \<Rightarrow> 'b list \<Rightarrow> ('a \<times> 'b) list" where
  "itertools_product [] ys = []"
| "itertools_product (x # xs) ys = map (\<lambda>y. (x, y)) ys @ itertools_product xs ys"

definition grid_iterator ::
  "hyperparameters list \<Rightarrow> hyperparameters list \<Rightarrow> (nat \<times> hyperparameters \<times> hyperparameters) list" where
  "grid_iterator training_hyperparameters_to_test model_hyperparameters_to_test =
     enumerate_list (itertools_product training_hyperparameters_to_test model_hyperparameters_to_test)"

subsection \<open>The sampling loop of the randomized search\<close>

text \<open>
  A sampler is a function of no argument that draws from a random source; the source is
  a state \<open>'g\<close> that each call reads and advances, and a call may raise.
\<close>

type_synonym 'g sampler = "'g \<Rightarrow> string + (pyval \<times> 'g)"

fun sample_all ::
  "(string, 'g sampler) dict \<Rightarrow> hyperparameters \<Rightarrow> 'g \<Rightarrow> error + (hyperparameters \<times> 'g)" where
  "sample_all [] d g = Inr (d, g)"
| "sample_all ((key, sampler) # rest) d g =
     (case external (sampler g) of
        Inl e \<Rightarrow> Inl e
      | Inr (v, g') \<Rightarrow> sample_all rest (dict_set d key v) g')"

text \<open>\<open>np.any([d == c for c in cs])\<close>.\<close>

definition already_present :: "hyperparameters \<Rightarrow> hyperparameters list \<Rightarrow> bool" where
  "already_present d cs = list_ex (\<lambda>c. dict_eq d c) cs"

text \<open>
  The state of the \<open>while\<close> loop: the counter \<open>i\<close> (here \<open>counter_i\<close>), the two lists of accepted
  dictionaries and the random source.
\<close>

record 'g sampling_state =
  counter_i :: int
  model_hyperparameters_to_test :: "hyperparameters list"
  training_hyperparameters_to_test :: "hyperparameters list"
  source :: 'g

text \<open>One pass through the body of the loop.\<close>

definition sampling_body ::
  "(string, 'g sampler) dict \<Rightarrow> (string, 'g sampler) dict \<Rightarrow> 'g sampling_state
     \<Rightarrow> error + 'g sampling_state" where
  "sampling_body model_hyperparameters_to_sample training_hyperparameters_to_sample s =
     (case sample_all model_hyperparameters_to_sample [] (source s) of
        Inl e \<Rightarrow> Inl e
      | Inr (model_d, g1) \<Rightarrow>
          (case sample_all training_hyperparameters_to_sample [] g1 of
             Inl e \<Rightarrow> Inl e
           | Inr (training_d, g2) \<Rightarrow>
               (if \<not> (already_present model_d (model_hyperparameters_to_test s)
                       \<and> already_present training_d (training_hyperparameters_to_test s))
                then Inr \<lparr>counter_i = counter_i s + 1,
                          model_hyperparameters_to_test = model_hyperparameters_to_test s @ [model_d],
                          training_hyperparameters_to_test =
                            training_hyperparameters_to_test s @ [training_d],
                          source = g2\<rparr>
                else Inr (s\<lparr>source := g2\<rparr>))))"

text \<open>
  The loop itself. It need not end, so it is a partial function: \<open>None\<close> is the loop
  running forever, \<open>Some (Inl e)\<close> a sampler raising \<open>e\<close>, \<open>Some (Inr s)\<close> the state in
  which the loop is left.
\<close>

partial_function (option) sampling_loop ::
  "int \<Rightarrow> (string, 'g sampler) dict \<Rightarrow> (string, 'g sampler) dict \<Rightarrow> 'g sampling_state
     \<Rightarrow> (error + 'g sampling_state) option" where
  "sampling_loop n_run model_hyperparameters_to_sample training_hyperparameters_to_sample s =
     (if counter_i s < n_run then
        (case sampling_body model_hyperparameters_to_sample training_hyperparameters_to_sample s of
           Inl e \<Rightarrow> Some (Inl e)
         | Inr s' \<Rightarrow>
             sampling_loop n_run model_hyperparameters_to_sample training_hyperparameters_to_sample s')
      else Some (Inr s))"

definition initial_sampling_state :: "'g \<Rightarrow> 'g sampling_state" where
  "initial_sampling_state g =
     \<lparr>counter_i = 0, model_hyperparameters_to_test = [], training_hyperparameters_to_test = [], source = g\<rparr>"


subsection \<open>The collaborators and the world\<close>

text \<open>
  A result table: \<open>pd.DataFrame(data=d)\<close> of a dictionary of lists keeps the columns in
  the dictionary's order and raises \<open>ValueError\<close> when the lists differ in length. It
  gives each column one dtype and converts the cells to it (an integer among floats
  becomes a float): \<open>astype\<close>, a parameter, is that conversion of a cell, given its
  column.
\<close>

datatype dataframe = DataFrame (columns: "(string, pyval list) dict")

definition pd_DataFrame ::
  "(pyval list \<Rightarrow> pyval \<Rightarrow> pyval) \<Rightarrow> (string, pyval list) dict \<Rightarrow> error + dataframe" where
  "pd_DataFrame astype0 d =
     (case d of
        [] \<Rightarrow> Inr (DataFrame [])
      | c # cs \<Rightarrow>
          (if list_all (\<lambda>c'. length (snd c') = length (snd c)) cs
           then Inr (DataFrame (map (\<lambda>c'. (fst c', map (astype0 (snd c')) (snd c'))) d))
           else Inl ValueError))"

definition nrows :: "dataframe \<Rightarrow> nat" where
  "nrows df = (case columns df of [] \<Rightarrow> 0 | c # _ \<Rightarrow> length (snd c))"

text \<open>
  What the code reaches outside itself: the files written by \<open>joblib.dump\<close>, the lines
  printed, and the state \<open>'w\<close> of the framework (random generators, clock, experiment
  tracker), which only the collaborators read and change.
\<close>

record 'w world =
  files :: "(string, dataframe) dict"
  stdout :: "string list"
  framework :: 'w

type_synonym fit_result = "(string, (string, pyval list) dict) dict"

text \<open>
  The collaborators, injected or imported, none of them defined in the two modules:
  \<^item> \<open>create_parameters\<close>: the parameter names of \<open>dataloader_builder.create\<close>, as
    \<open>inspect.signature\<close> lists them;
  \<^item> \<open>get_dataloader_params\<close> and \<open>create\<close> of the data-loader builder;
  \<^item> \<open>build_model\<close>: \<open>model_class(**kwargs).to(device)\<close>, given the value stored under
    \<open>'model_class'\<close>;
  \<^item> \<open>fit\<close>: \<open>net.fit(train_loader, val_loader, verbose=False, **kwargs)\<close>;
  \<^item> \<open>time_time\<close>: the clock; \<open>manual_seed\<close>: \<open>torch.manual_seed\<close> then
    \<open>np.random.seed\<close>; \<open>astype\<close>: the conversion of cells by \<open>pd.DataFrame\<close>;
  \<^item> \<open>wandb_init\<close> (given the configuration, the index in the run name \<open>run_<index>\<close>
    and the user's parameters) and \<open>wandb_watch\<close>;
  \<^item> \<open>dump_fault\<close>: the exception with which \<open>joblib.dump\<close> fails on a path, if any.
  Each but the clock and the conversion may raise; the exception is passed on as it is.
  An argument that the signature of a collaborator does not accept is the collaborator's
  exception; a keyword given twice in a call written in \<open>collect_results\<close> is not.
\<close>

record ('d, 'l, 'loader, 'net, 'w) collaborators =
  create_parameters :: "string list"
  get_dataloader_params :: "string \<Rightarrow> hyperparameters \<Rightarrow> string + pyval"
  create :: "'d \<Rightarrow> 'l \<Rightarrow> bool \<Rightarrow> string \<Rightarrow> hyperparameters \<Rightarrow> string + 'loader"
  build_model :: "pyval \<Rightarrow> hyperparameters \<Rightarrow> string \<Rightarrow> 'w \<Rightarrow> string + ('net \<times> 'w)"
  fit :: "'net \<Rightarrow> 'loader \<Rightarrow> 'loader \<Rightarrow> hyperparameters \<Rightarrow> 'w \<Rightarrow> string + (fit_result \<times> 'w)"
  time_time :: "'w \<Rightarrow> real \<times> 'w"
  manual_seed :: "int \<Rightarrow> 'w \<Rightarrow> string + 'w"
  astype :: "pyval list \<Rightarrow> pyval \<Rightarrow> pyval"
  wandb_init :: "hyperparameters \<Rightarrow> nat \<Rightarrow> (string, string) dict \<Rightarrow> 'w \<Rightarrow> string + 'w"
  wandb_watch :: "'net \<Rightarrow> pyval \<Rightarrow> 'w \<Rightarrow> string + 'w"
  dump_fault :: "string \<Rightarrow> string option"

definition joblib_dump ::
  "('d, 'l, 'loader, 'net, 'w) collaborators \<Rightarrow> dataframe \<Rightarrow> string \<Rightarrow> 'w world \<Rightarrow> error + 'w world" where
  "joblib_dump env df path w =
     (case dump_fault env path of
        Some c \<Rightarrow> Inl (External c)
      | None \<Rightarrow> Inr (w\<lparr>files := dict_set (files w) path df\<rparr>))"

text \<open>The arguments of \<open>collect_results\<close>, the data-loader builder apart.\<close>

record ('d, 'l) arguments =
  train_data :: "'d \<times> 'l"
  val_data :: "'d \<times> 'l"
  iterator :: "(nat \<times> hyperparameters \<times> hyperparameters) list"
  shuffle :: bool
  device :: string
  hyperparameters_key_to_save :: "string list"
  path_to_results :: string
  seeds :: "int list option"
  save_loss_values :: bool
  wandb_params :: "(string, string) dict option"

subsection \<open>collect\_results\<close>

definition early_stopper_exist :: "hyperparameters \<Rightarrow> bool" where
  "early_stopper_exist training_hyperparameters =
     (dict_contains training_hyperparameters ''early_stopper''
      \<and> dict_get training_hyperparameters ''early_stopper'' \<noteq> Some PyNone)"

definition history_index :: "hyperparameters \<Rightarrow> error + int" where
  "history_index training_hyperparameters =
     (if early_stopper_exist training_hyperparameters then
        (case dict_lookup training_hyperparameters ''early_stopper'' of
           Inl e \<Rightarrow> Inl e
         | Inr stopper \<Rightarrow>
             (case attr_patience stopper of Inl e \<Rightarrow> Inl e | Inr p \<Rightarrow> Inr (- 1 - p)))
      else Inr (- 1))"

definition wandb_flags :: "(string, string) dict option \<Rightarrow> string list" where
  "wandb_flags wandb_params0 =
     (if wandb_params0 \<noteq> None then [''interaction_with_wandb''] else [])"

definition warning_message :: string where
  "warning_message =
     ''Warning: Wandb connection started without logging anything.Maybe you want to add some training hyperparameters wandb related:''"

fun join :: "string \<Rightarrow> string list \<Rightarrow> string" where
  "join sep [] = []"
| "join sep [x] = x"
| "join sep (x # y # ys) = x @ sep @ join sep (y # ys)"

definition warn_wandb :: "(string, string) dict option \<Rightarrow> hyperparameters \<Rightarrow> 'w world \<Rightarrow> 'w world" where
  "warn_wandb wandb_params0 training_hyperparameters w =
     (if wandb_params0 \<noteq> None
         \<and> \<not> list_ex (\<lambda>flag. dict_contains training_hyperparameters flag) (wandb_flags wandb_params0)
      then w\<lparr>stdout := stdout w @ [join [CHR 0x0A] ([warning_message] @ wandb_flags wandb_params0)]\<rparr>
      else w)"

definition dataloader_params_of ::
  "('d, 'l, 'loader, 'net, 'w) collaborators \<Rightarrow> hyperparameters \<Rightarrow> error + hyperparameters" where
  "dataloader_params_of env total_hyperparameters =
     for_each
       (\<lambda>param d.
          (case (if dict_contains total_hyperparameters param
                 then dict_lookup total_hyperparameters param
                 else external (get_dataloader_params env param total_hyperparameters)) of
             Inl e \<Rightarrow> Inl e
           | Inr v \<Rightarrow> Inr (dict_set d param v)))
       (filter (\<lambda>element. element \<notin> set [''data'', ''labels'', ''shuffle'', ''device''])
          (create_parameters env))
       []"

text \<open>\<open>training_hyperparameters.get('metrics', [])\<close>, as a \<open>for\<close> statement iterates it.\<close>

definition get_metrics :: "hyperparameters \<Rightarrow> error + pyval list" where
  "get_metrics training_hyperparameters =
     py_iter (case dict_get training_hyperparameters ''metrics'' of
                None \<Rightarrow> PyList []
              | Some v \<Rightarrow> v)"

text \<open>\<open>result[phase][name][history_idx]\<close> and \<open>results[name][i]\<close>.\<close>

definition history_value :: "fit_result \<Rightarrow> string \<Rightarrow> string \<Rightarrow> int \<Rightarrow> error + pyval" where
  "history_value result phase nm idx =
     (case dict_lookup result phase of
        Inl e \<Rightarrow> Inl e
      | Inr r \<Rightarrow> (case dict_lookup r nm of Inl e \<Rightarrow> Inl e | Inr h \<Rightarrow> py_index h idx))"

definition results_value :: "(string, pyval list) dict \<Rightarrow> string \<Rightarrow> nat \<Rightarrow> error + pyval" where
  "results_value results nm k =
     (case dict_lookup results nm of Inl e \<Rightarrow> Inl e | Inr xs \<Rightarrow> py_index xs (int k))"

text \<open>What one pass of the loop over the seeds reads and updates.\<close>

record 'w run_state =
  train_results :: "(string, pyval list) dict"
  val_results :: "(string, pyval list) dict"
  fitting_times :: "real list"
  run_idx :: nat
  world :: "'w world"

text \<open>The two appends per metric after a fit (the inner \<open>for metric\<close> loop).\<close>

definition record_metric ::
  "fit_result \<Rightarrow> int \<Rightarrow> pyval \<Rightarrow> 'w run_state \<Rightarrow> error + 'w run_state" where
  "record_metric result history_idx metric st =
     (case attr_name metric of
        Inl e \<Rightarrow> Inl e
      | Inr nm \<Rightarrow>
          (case list_append_at (train_results st) nm (history_value result ''train'' nm history_idx) of
             Inl e \<Rightarrow> Inl e
           | Inr tr \<Rightarrow>
               (case list_append_at (val_results st) nm (history_value result ''val'' nm history_idx) of
                  Inl e \<Rightarrow> Inl e
                | Inr vr \<Rightarrow> Inr (st\<lparr>train_results := tr, val_results := vr\<rparr>))))"

text \<open>
  \<open>config_params\<close>: the saved hyperparameters when the tracker is in use, else the empty
  dictionary.
\<close>

definition config_params_of :: "('d, 'l) arguments \<Rightarrow> hyperparameters \<Rightarrow> error + hyperparameters" where
  "config_params_of args total_hyperparameters =
     (if wandb_params args \<noteq> None then
        for_each
          (\<lambda>key d. (case dict_lookup total_hyperparameters key of
                       Inl e \<Rightarrow> Inl e
                     | Inr v \<Rightarrow> Inr (dict_set d key v)))
          (hyperparameters_key_to_save args) []
      else Inr [])"

text \<open>
  \<open>wandb.init(config=..., name=..., **wandb_params)\<close> and \<open>wandb.watch\<close>, when the
  tracker is in use. The call of \<open>init\<close> raises \<open>TypeError\<close> when the user's parameters
  repeat one of its two keywords.
\<close>

definition track_run ::
  "('d, 'l, 'loader, 'net, 'w) collaborators \<Rightarrow> ('d, 'l) arguments \<Rightarrow> hyperparameters \<Rightarrow> nat
     \<Rightarrow> 'net \<Rightarrow> hyperparameters \<Rightarrow> 'w \<Rightarrow> error + 'w" where
  "track_run env args config_params k net total_hyperparameters w =
     (case wandb_params args of
        None \<Rightarrow> Inr w
      | Some params \<Rightarrow>
          (case (if dict_contains params ''config'' \<or> dict_contains params ''name''
                 then Inl TypeError
                 else external (wandb_init env config_params k params w)) of
             Inl e \<Rightarrow> Inl e
           | Inr w1 \<Rightarrow>
               (case dict_lookup total_hyperparameters ''criterion'' of
                  Inl e \<Rightarrow> Inl e
                | Inr c \<Rightarrow> external (wandb_watch env net c w1))))"

text \<open>
  Calling a value: \<open>None\<close>, booleans, numbers, strings, lists and optimizer wrappers
  cannot be called; a class and a criterion can; the call of a metric or an early stopper,
  whose classes are not in these files, is left to the collaborator \<open>build_model\<close>.
\<close>

fun callable :: "pyval \<Rightarrow> bool" where
  "callable PyNone = False"
| "callable (PyBool _) = False"
| "callable (PyInt _) = False"
| "callable (PyFloat _) = False"
| "callable (PyStr _) = False"
| "callable (PyList _) = False"
| "callable (PyOptimizerWrapper _) = False"
| "callable _ = True"

text \<open>
  The body of the loop over the seeds (\<open>for idx, test_iteration in ...\<close>). The clock is
  read before and after the fit; the fit runs in the world the first reading leaves. The
  call \<open>net.fit(train_loader=..., val_loader=..., verbose=False, **kwargs)\<close> raises
  \<open>TypeError\<close> when the training hyperparameters repeat one of its three keywords.
\<close>

definition seed_iteration ::
  "('d, 'l, 'loader, 'net, 'w) collaborators \<Rightarrow> ('d, 'l) arguments \<Rightarrow> hyperparameters
     \<Rightarrow> hyperparameters \<Rightarrow> hyperparameters \<Rightarrow> pyval \<Rightarrow> int \<Rightarrow> 'loader \<Rightarrow> 'loader
     \<Rightarrow> hyperparameters \<Rightarrow> int \<Rightarrow> 'w run_state \<Rightarrow> error + 'w run_state" where
  "seed_iteration env args training_hyperparameters model_hyperparameters total_hyperparameters
       criterion history_idx train_data_loader val_data_loader new_training_hyperparameters
       test_iteration st =
     (case config_params_of args total_hyperparameters of
        Inl e \<Rightarrow> Inl e
      | Inr config_params0 \<Rightarrow>
     (case (if seeds args \<noteq> None
            then external (manual_seed env test_iteration (framework (world st)))
            else Inr (framework (world st))) of
        Inl e \<Rightarrow> Inl e
      | Inr w1 \<Rightarrow>
     (let config_params = (if seeds args \<noteq> None \<and> wandb_params args \<noteq> None
                           then dict_set config_params0 ''seed'' (PyInt test_iteration)
                           else config_params0)
      in
      case dict_pop model_hyperparameters ''model_class'' of
        Inl e \<Rightarrow> Inl e
      | Inr new_model_hyperparameters \<Rightarrow>
     (case dict_lookup model_hyperparameters ''model_class'' of
        Inl e \<Rightarrow> Inl e
      | Inr model_class \<Rightarrow>
     (case (if callable model_class
            then external (build_model env model_class new_model_hyperparameters (device args) w1)
            else Inl TypeError) of
        Inl e \<Rightarrow> Inl e
      | Inr (net, w2) \<Rightarrow>
     (case track_run env args config_params (run_idx st) net total_hyperparameters w2 of
        Inl e \<Rightarrow> Inl e
      | Inr w3 \<Rightarrow>
     (case (if list_ex (dict_contains new_training_hyperparameters)
                 [''train_loader'', ''val_loader'', ''verbose'']
            then Inl TypeError
            else external (fit env net train_data_loader val_data_loader
                             new_training_hyperparameters (snd (time_time env w3)))) of
        Inl e \<Rightarrow> Inl e
      | Inr (result, w5) \<Rightarrow>
     (let start_time = fst (time_time env w3);
          end_time = fst (time_time env w5);
          st1 = st\<lparr>fitting_times := fitting_times st @ [end_time - start_time],
                  world := (world st)\<lparr>framework := snd (time_time env w5)\<rparr>\<rparr>
      in
      case attr_name criterion of
        Inl e \<Rightarrow> Inl e
      | Inr cname \<Rightarrow>
     (case list_append_at (train_results st1) cname
             (history_value result ''train'' cname history_idx) of
        Inl e \<Rightarrow> Inl e
      | Inr tr \<Rightarrow>
     (case list_append_at (val_results st1) cname
             (history_value result ''val'' cname history_idx) of
        Inl e \<Rightarrow> Inl e
      | Inr vr \<Rightarrow>
     (case get_metrics training_hyperparameters of
        Inl e \<Rightarrow> Inl e
      | Inr metrics \<Rightarrow>
     (case for_each (record_metric result history_idx) metrics
             (st1\<lparr>train_results := tr, val_results := vr\<rparr>) of
        Inl e \<Rightarrow> Inl e
      | Inr st2 \<Rightarrow> Inr (st2\<lparr>run_idx := run_idx st2 + 1\<rparr>)))))))))))))"

text \<open>
  The rows of the table. For one metric: its two columns are created when absent, then
  extended.
\<close>

definition record_metric_columns ::
  "'w run_state \<Rightarrow> nat \<Rightarrow> pyval \<Rightarrow> (string, pyval list) dict \<Rightarrow> error + (string, pyval list) dict" where
  "record_metric_columns st k metric dataframe_dict =
     (case attr_name metric of
        Inl e \<Rightarrow> Inl e
      | Inr nm \<Rightarrow>
     (case list_append_at
             (if \<not> dict_contains dataframe_dict (nm @ ''_train'')
              then dict_set dataframe_dict (nm @ ''_train'') [] else dataframe_dict)
             (nm @ ''_train'') (results_value (train_results st) nm k) of
        Inl e \<Rightarrow> Inl e
      | Inr d1 \<Rightarrow>
          list_append_at
            (if \<not> dict_contains d1 (nm @ ''_val'') then dict_set d1 (nm @ ''_val'') [] else d1)
            (nm @ ''_val'') (results_value (val_results st) nm k)))"

text \<open>The body of \<open>for i, seed in enumerate(seeds)\<close>.\<close>

definition record_row ::
  "('d, 'l) arguments \<Rightarrow> hyperparameters \<Rightarrow> pyval \<Rightarrow> 'w run_state \<Rightarrow> nat \<times> int
     \<Rightarrow> (string, pyval list) dict \<Rightarrow> error + (string, pyval list) dict" where
  "record_row args training_hyperparameters criterion st k_seed dataframe_dict =
     (case list_append_at dataframe_dict ''seed'' (Inr (PyInt (snd k_seed))) of
        Inl e \<Rightarrow> Inl e
      | Inr d1 \<Rightarrow>
     (case list_append_at d1 ''time''
             (case py_index (fitting_times st) (int (fst k_seed)) of
                Inl e \<Rightarrow> Inl e
              | Inr t \<Rightarrow> Inr (PyFloat t)) of
        Inl e \<Rightarrow> Inl e
      | Inr d2 \<Rightarrow>
     (case (if save_loss_values args then
              (case list_append_at d2 ''train_loss''
                      (case attr_name criterion of
                         Inl e \<Rightarrow> Inl e
                       | Inr cname \<Rightarrow> results_value (train_results st) cname (fst k_seed)) of
                 Inl e \<Rightarrow> Inl e
               | Inr d3 \<Rightarrow>
                   list_append_at d3 ''val_loss''
                     (case attr_name criterion of
                        Inl e \<Rightarrow> Inl e
                      | Inr cname \<Rightarrow> results_value (val_results st) cname (fst k_seed)))
            else Inr d2) of
        Inl e \<Rightarrow> Inl e
      | Inr d4 \<Rightarrow>
     (case get_metrics training_hyperparameters of
        Inl e \<Rightarrow> Inl e
      | Inr metrics \<Rightarrow> for_each (record_metric_columns st (fst k_seed)) metrics d4))))"

text \<open>
  The body of the loop over the combinations. Its state is the table under construction,
  the run counter and the world.
\<close>

type_synonym 'w table_state = "(string, pyval list) dict \<times> nat \<times> 'w world"

definition combination_body ::
  "('d, 'l, 'loader, 'net, 'w) collaborators \<Rightarrow> ('d, 'l) arguments \<Rightarrow> int list
     \<Rightarrow> nat \<times> hyperparameters \<times> hyperparameters \<Rightarrow> 'w table_state \<Rightarrow> error + 'w table_state" where
  "combination_body env args test_iterator item ts =
     (let training_hyperparameters = fst (snd item);
          model_hyperparameters = snd (snd item);
          dataframe_dict = fst ts
      in
      case dict_lookup training_hyperparameters ''criterion'' of
        Inl e \<Rightarrow> Inl e
      | Inr criterion \<Rightarrow>
     (case history_index training_hyperparameters of
        Inl e \<Rightarrow> Inl e
      | Inr history_idx \<Rightarrow>
     (let w1 = warn_wandb (wandb_params args) training_hyperparameters (snd (snd ts));
          total_hyperparameters = dict_merge training_hyperparameters model_hyperparameters
      in
      case dataloader_params_of env total_hyperparameters of
        Inl e \<Rightarrow> Inl e
      | Inr dataloader_params \<Rightarrow>
     (case external (create env (fst (train_data args)) (snd (train_data args)) (shuffle args)
                       (device args) dataloader_params) of
        Inl e \<Rightarrow> Inl e
      | Inr train_data_loader \<Rightarrow>
     (case external (create env (fst (val_data args)) (snd (val_data args)) False
                       (device args) dataloader_params) of
        Inl e \<Rightarrow> Inl e
      | Inr val_data_loader \<Rightarrow>
     (case dict_pop training_hyperparameters ''batch_size'' of
        Inl e \<Rightarrow> Inl e
      | Inr new_training_hyperparameters \<Rightarrow>
     (case attr_name criterion of
        Inl e \<Rightarrow> Inl e
      | Inr cname \<Rightarrow>
     (case get_metrics training_hyperparameters of
        Inl e \<Rightarrow> Inl e
      | Inr metrics \<Rightarrow>
     (case for_each
             (\<lambda>metric r. (case attr_name metric of
                             Inl e \<Rightarrow> Inl e
                           | Inr nm \<Rightarrow> Inr (dict_set (fst r) nm [], dict_set (snd r) nm [])))
             metrics (dict_set [] cname [], dict_set [] cname []) of
        Inl e \<Rightarrow> Inl e
      | Inr r \<Rightarrow>
     (case for_each
             (seed_iteration env args training_hyperparameters model_hyperparameters
                total_hyperparameters criterion history_idx train_data_loader val_data_loader
                new_training_hyperparameters)
             (map snd (enumerate_list test_iterator))
             \<lparr>train_results = fst r, val_results = snd r, fitting_times = [],
              run_idx = fst (snd ts), world = w1\<rparr> of
        Inl e \<Rightarrow> Inl e
      | Inr st \<Rightarrow>
     (case for_each (\<lambda>key d. list_append_at d key (dict_lookup total_hyperparameters key))
             (hyperparameters_key_to_save args) dataframe_dict of
        Inl e \<Rightarrow> Inl e
      | Inr d1 \<Rightarrow>
     (case seeds args of
        None \<Rightarrow> Inl TypeError
      | Some ss \<Rightarrow>
     (case for_each (record_row args training_hyperparameters criterion st) (enumerate_list ss) d1 of
        Inl e \<Rightarrow> Inl e
      | Inr d2 \<Rightarrow> Inr (d2, run_idx st, world st))))))))))))))"

text \<open>The table before the loop: one empty column per key, in the order of creation.\<close>

definition initial_dataframe_dict :: "('d, 'l) arguments \<Rightarrow> (string, pyval list) dict" where
  "initial_dataframe_dict args =
     (let d0 = fold (\<lambda>key d. dict_set d key []) (hyperparameters_key_to_save args) [];
          d1 = dict_set (dict_set d0 ''time'' []) ''seed'' []
      in if save_loss_values args then dict_set (dict_set d1 ''train_loss'' []) ''val_loss'' []
         else d1)"

text \<open>Everything up to the construction of the table.\<close>

definition build_table ::
  "('d, 'l, 'loader, 'net, 'w) collaborators \<Rightarrow> ('d, 'l) arguments \<Rightarrow> 'w world
     \<Rightarrow> error + 'w table_state" where
  "build_table env args w =
     (let test_iterator = (case seeds args of Some ss \<Rightarrow> ss | None \<Rightarrow> [0])
      in for_each (combination_body env args test_iterator) (iterator args)
           (initial_dataframe_dict args, 0, w))"

text \<open>The combinations that the loop of \<open>collect_results\<close> takes from its iterator.\<close>

definition iterated_combinations ::
  "('d, 'l, 'loader, 'net, 'w) collaborators \<Rightarrow> ('d, 'l) arguments \<Rightarrow> 'w world
     \<Rightarrow> (nat \<times> hyperparameters \<times> hyperparameters) list" where
  "iterated_combinations env args w =
     (let test_iterator = (case seeds args of Some ss \<Rightarrow> ss | None \<Rightarrow> [0])
      in iterated (combination_body env args test_iterator) (iterator args)
           (initial_dataframe_dict args, 0, w))"

definition collect_results ::
  "('d, 'l, 'loader, 'net, 'w) collaborators \<Rightarrow> ('d, 'l) arguments \<Rightarrow> 'w world
     \<Rightarrow> error + (dataframe \<times> 'w world)" where
  "collect_results env args w =
     (case build_table env args w of
        Inl e \<Rightarrow> Inl e
      | Inr ts \<Rightarrow>
          (case pd_DataFrame (astype env) (fst ts) of
             Inl e \<Rightarrow> Inl e
           | Inr df \<Rightarrow>
               (case joblib_dump env df (path_to_results args) (snd (snd ts)) of
                  Inl e \<Rightarrow> Inl e
                | Inr w' \<Rightarrow> Inr (df, w'))))"

subsection \<open>The two searches\<close>

text \<open>
  Both take the arguments of \<open>collect_results\<close> and replace the iterator by their own.
\<close>

definition grid_search_train_validation ::
  "('d, 'l, 'loader, 'net, 'w) collaborators \<Rightarrow> hyperparameters list \<Rightarrow> hyperparameters list
     \<Rightarrow> ('d, 'l) arguments \<Rightarrow> 'w world \<Rightarrow> error + (dataframe \<times> 'w world)" where
  "grid_search_train_validation env model_hyperparameters_to_test0 training_hyperparameters_to_test0
       args w =
     collect_results env
       (args\<lparr>iterator := grid_iterator training_hyperparameters_to_test0 model_hyperparameters_to_test0\<rparr>)
       w"



subsection \<open>Concrete inputs\<close>

text \<open>
  Collaborators that never raise, for running the code on concrete inputs: the builder's
  \<open>create\<close> takes a \<open>batch_size\<close> and the builder supplies 16 when the hyperparameters
  have none; every fit lasts two ticks of the clock and returns two epochs of loss and
  accuracy.
\<close>

text \<open>The conversion of the examples: an integer in a column that has a float becomes a float.\<close>

fun is_float :: "pyval \<Rightarrow> bool" where
  "is_float (PyFloat _) = True"
| "is_float _ = False"

fun upcast :: "pyval list \<Rightarrow> pyval \<Rightarrow> pyval" where
  "upcast column (PyInt n) = (if list_ex is_float column then PyFloat (real_of_int n) else PyInt n)"
| "upcast column cell = cell"

definition example_collaborators :: "(unit, unit, unit, unit, nat) collaborators" where
  "example_collaborators =
     \<lparr>create_parameters = [''data'', ''labels'', ''shuffle'', ''device'', ''batch_size''],
      get_dataloader_params = (\<lambda>param total. Inr (PyInt 16)),
      create = (\<lambda>data labels shuffle0 device0 kwargs. Inr ()),
      build_model = (\<lambda>model_class kwargs device0 w. Inr ((), w)),
      fit = (\<lambda>net train_loader val_loader kwargs w.
               Inr ([(''train'', [(''loss'', [PyInt 4, PyInt 3]), (''accuracy'', [PyInt 70, PyInt 80])]),
                     (''val'', [(''loss'', [PyInt 6, PyInt 5]), (''accuracy'', [PyInt 60, PyInt 65])])],
                    w + 2)),
      time_time = (\<lambda>w. (real w, w)),
      manual_seed = (\<lambda>seed w. Inr w),
      astype = upcast,
      wandb_init = (\<lambda>config k params w. Inr w),
      wandb_watch = (\<lambda>net criterion w. Inr w),
      dump_fault = (\<lambda>path. None)\<rparr>"

definition example_training :: hyperparameters where
  "example_training =
     [(''criterion'', PyCriterion ''loss''), (''batch_size'', PyInt 32), (''num_epochs'', PyInt 5)]"

text \<open>A second training dictionary, and a list of metrics to add to either.\<close>

definition example_training_long :: hyperparameters where
  "example_training_long =
     [(''criterion'', PyCriterion ''loss''), (''batch_size'', PyInt 32), (''num_epochs'', PyInt 10)]"

definition example_metrics :: hyperparameters where
  "example_metrics = [(''metrics'', PyList [PyMetric ''accuracy''])]"

definition example_model :: hyperparameters where
  "example_model = [(''model_class'', PyClass ''Net''), (''hidden'', PyInt 8)]"

definition example_arguments :: "(unit, unit) arguments" where
  "example_arguments =
     \<lparr>train_data = ((), ()), val_data = ((), ()), iterator = [], shuffle = True, device = ''cpu'',
      hyperparameters_key_to_save = [''num_epochs''], path_to_results = ''results.pkl'',
      seeds = Some [7], save_loss_values = False, wandb_params = None\<rparr>"

definition example_world :: "nat world" where
  "example_world = \<lparr>files = [], stdout = [], framework = 0\<rparr>"

text \<open>
  Samplers over a counter as random source. The first pair draws, in turn, the
  combinations (1, 10), (2, 20), (1, 20), and again; the second pair always draws the
  same combination.
\<close>

definition cycling_model_samplers :: "(string, nat sampler) dict" where
  "cycling_model_samplers = [(''units'', \<lambda>g. Inr (PyInt (if g mod 3 = 1 then 2 else 1), g))]"

definition cycling_training_samplers :: "(string, nat sampler) dict" where
  "cycling_training_samplers =
     [(''lr'', \<lambda>g. Inr (PyInt (if g mod 3 = 0 then 10 else 20), Suc g))]"

definition constant_model_samplers :: "(string, unit sampler) dict" where
  "constant_model_samplers = [(''units'', \<lambda>g. Inr (PyInt 1, g))]"

definition constant_training_samplers :: "(string, unit sampler) dict" where
  "constant_training_samplers = [(''lr'', \<lambda>g. Inr (PyInt 10, g))]"



subsection \<open>The columns a table is expected to have\<close>

text \<open>
  The names of the metrics of a training dictionary, and the columns \<open>collect_results\<close>
  derives from them: \<open><name>_train\<close> and \<open><name>_val\<close>.
\<close>

definition metric_names :: "hyperparameters \<Rightarrow> string list" where
  "metric_names training_hyperparameters =
     (case get_metrics training_hyperparameters of
        Inl _ \<Rightarrow> []
      | Inr ms \<Rightarrow> concat (map (\<lambda>m. case attr_name m of Inl _ \<Rightarrow> [] | Inr nm \<Rightarrow> [nm]) ms))"

definition metric_columns :: "hyperparameters \<Rightarrow> string list" where
  "metric_columns training_hyperparameters =
     concat (map (\<lambda>nm. [nm @ ''_train'', nm @ ''_val'']) (metric_names training_hyperparameters))"

definition expected_columns :: "('d, 'l) arguments \<Rightarrow> string set" where
  "expected_columns args =
     set (hyperparameters_key_to_save args) \<union> {''time'', ''seed''}
     \<union> (if save_loss_values args then {''train_loss'', ''val_loss''} else {})
     \<union> (\<Union>item \<in> set (iterator args). set (metric_columns (fst (snd item))))"

subsection \<open>Inputs that meet the requirements of the harness\<close>

text \<open>
  The names under which \<open>collect_results\<close> reads the histories of a fit: the name of
  the criterion, then the names of the metrics.
\<close>

definition result_names :: "hyperparameters \<Rightarrow> string list" where
  "result_names training_hyperparameters =
     (case dict_get training_hyperparameters ''criterion'' of
        None \<Rightarrow> []
      | Some c \<Rightarrow> (case attr_name c of Inl _ \<Rightarrow> [] | Inr nm \<Rightarrow> [nm]))
     @ metric_names training_hyperparameters"

text \<open>
  A fit result is complete for a training dictionary when both its \<open>'train'\<close> and its
  \<open>'val'\<close> part hold, for each of these names, a history with an entry at the index the
  harness reads (the last one, or \<open>patience\<close> further back with an early stopper).
\<close>

definition complete_result :: "hyperparameters \<Rightarrow> fit_result \<Rightarrow> bool" where
  "complete_result training_hyperparameters result =
     (case history_index training_hyperparameters of
        Inl _ \<Rightarrow> False
      | Inr idx \<Rightarrow>
          list_all (\<lambda>nm. \<not> isl (history_value result ''train'' nm idx)
                        \<and> \<not> isl (history_value result ''val'' nm idx))
            (result_names training_hyperparameters))"

text \<open>
  What the harness requires of a training dictionary: a \<open>'criterion'\<close> with a name, an
  early stopper (if any) with a patience, a \<open>'batch_size'\<close>, \<open>'metrics'\<close> (if any) that
  can be iterated and have names, and none of the keywords that the call of \<open>fit\<close> gives
  itself. Of a combination: moreover a \<open>'model_class'\<close> that is a class among the model
  hyperparameters, and every key to save in the merged dictionary. Of the parameters of
  the tracker: none of the keywords that the call of \<open>wandb.init\<close> gives itself.
\<close>

definition well_formed_training :: "hyperparameters \<Rightarrow> bool" where
  "well_formed_training training_hyperparameters =
     ((case dict_get training_hyperparameters ''criterion'' of
         None \<Rightarrow> False
       | Some c \<Rightarrow> \<not> isl (attr_name c))
      \<and> \<not> isl (history_index training_hyperparameters)
      \<and> dict_contains training_hyperparameters ''batch_size''
      \<and> \<not> list_ex (dict_contains training_hyperparameters)
            [''train_loader'', ''val_loader'', ''verbose'']
      \<and> (case get_metrics training_hyperparameters of
            Inl _ \<Rightarrow> False
          | Inr ms \<Rightarrow> list_all (\<lambda>m. \<not> isl (attr_name m)) ms))"

fun is_class :: "pyval \<Rightarrow> bool" where
  "is_class (PyClass _) = True"
| "is_class _ = False"

definition well_formed_combination ::
  "string list \<Rightarrow> hyperparameters \<times> hyperparameters \<Rightarrow> bool" where
  "well_formed_combination keys combination =
     (well_formed_training (fst combination)
      \<and> (case dict_get (snd combination) ''model_class'' of
            None \<Rightarrow> False
          | Some c \<Rightarrow> is_class c)
      \<and> list_all (dict_contains (dict_merge (fst combination) (snd combination))) keys)"

definition well_formed_wandb_params :: "(string, string) dict option \<Rightarrow> bool" where
  "well_formed_wandb_params wandb_params0 =
     (case wandb_params0 of
        None \<Rightarrow> True
      | Some params \<Rightarrow> \<not> dict_contains params ''config'' \<and> \<not> dict_contains params ''name'')"

text \<open>
  The \<open>fit\<close> of the collaborators returns complete results for a training dictionary,
  whenever it is called with that dictionary less its \<open>'batch_size'\<close> and returns.
\<close>

definition fit_results_complete ::
  "('d, 'l, 'loader, 'net, 'w) collaborators \<Rightarrow> hyperparameters \<Rightarrow> bool" where
  "fit_results_complete env training_hyperparameters =
     (\<forall>net train_loader val_loader w result w'.
        fit env net train_loader val_loader
          (filter (\<lambda>kv. fst kv \<noteq> ''batch_size'') training_hyperparameters) w = Inr (result, w')
        \<longrightarrow> complete_result training_hyperparameters result)"

text \<open>
  The collaborators of the examples, with a serializer that fails, and with a \<open>fit\<close> that
  fails.
\<close>

definition failing_dump_collaborators :: "(unit, unit, unit, unit, nat) collaborators" where
  "failing_dump_collaborators =
     example_collaborators\<lparr>dump_fault := (\<lambda>path. Some ''PermissionError'')\<rparr>"


text \<open>
  The requirements on everything \<open>collect_results\<close> is given: the parameters of the
  tracker, every combination of the iterator, and the fits of the collaborators.
\<close>

definition well_formed_input ::
  "('d, 'l, 'loader, 'net, 'w) collaborators \<Rightarrow> ('d, 'l) arguments \<Rightarrow> bool" where
  "well_formed_input env args =
     (well_formed_wandb_params (wandb_params args)
      \<and> (\<forall>item \<in> set (iterator args).
            well_formed_combination (hyperparameters_key_to_save args) (snd item)
            \<and> fit_results_complete env (fst (snd item))))"

text \<open>
  The columns that every run extends, and the inputs for which every column of the table
  is extended as often as every other: one seed (or no key to save), keys to save that
  are distinct and are neither those columns nor columns of metrics, and combinations
  that all have the same metrics, each once.
\<close>

definition reserved_columns :: "('d, 'l) arguments \<Rightarrow> string list" where
  "reserved_columns args =
     [''time'', ''seed''] @ (if save_loss_values args then [''train_loss'', ''val_loss''] else [])"

definition aligned_input :: "('d, 'l) arguments \<Rightarrow> bool" where
  "aligned_input args =
     ((case seeds args of
         None \<Rightarrow> False
       | Some ss \<Rightarrow> length ss = 1 \<or> hyperparameters_key_to_save args = [])
      \<and> distinct (hyperparameters_key_to_save args)
      \<and> list_all (\<lambda>key. key \<notin> set (reserved_columns args)) (hyperparameters_key_to_save args)
      \<and> list_all
           (\<lambda>item. distinct (metric_names (fst (snd item)))
                  \<and> list_all (\<lambda>key. key \<notin> set (metric_columns (fst (snd item))))
                       (hyperparameters_key_to_save args)
                  \<and> list_all
                       (\<lambda>item'. set (metric_names (fst (snd item')))
                                 = set (metric_names (fst (snd item))))
                       (iterator args))
           (iterator args))"

subsection \<open>Invariants of the loops\<close>

text \<open>
  \<open>has_at_least d k n\<close>: the dictionary of lists \<open>d\<close> has the key \<open>k\<close>, with at least
  \<open>n\<close> values. \<open>passes r Q\<close>: the outcome \<open>r\<close> is an exception of a collaborator, or a
  value that satisfies \<open>Q\<close>. \<open>results_ready\<close>: every name has as many results as fits
  were timed. \<open>table_ready\<close>: the table has the columns that every combination extends.
\<close>

definition has_at_least :: "(string, 'a list) dict \<Rightarrow> string \<Rightarrow> nat \<Rightarrow> bool" where
  "has_at_least d k n = (case dict_get d k of None \<Rightarrow> False | Some xs \<Rightarrow> n \<le> length xs)"

definition passes :: "error + 'a \<Rightarrow> ('a \<Rightarrow> bool) \<Rightarrow> bool" where
  "passes r Q = (case r of Inl e \<Rightarrow> (\<exists>c. e = External c) | Inr x \<Rightarrow> Q x)"

definition results_ready :: "string list \<Rightarrow> 'w run_state \<Rightarrow> bool" where
  "results_ready names st =
     (\<forall>nm \<in> set names.
        has_at_least (train_results st) nm (length (fitting_times st))
        \<and> has_at_least (val_results st) nm (length (fitting_times st)))"

definition table_ready :: "('d, 'l) arguments \<Rightarrow> (string, pyval list) dict \<Rightarrow> bool" where
  "table_ready args d =
     (has_at_least d ''seed'' 0 \<and> has_at_least d ''time'' 0
      \<and> (save_loss_values args \<longrightarrow> has_at_least d ''train_loss'' 0 \<and> has_at_least d ''val_loss'' 0)
      \<and> (\<forall>key \<in> set (hyperparameters_key_to_save args). has_at_least d key 0))"

text \<open>
  \<open>lengths_are d f\<close>: no key of \<open>d\<close> occurs twice, and the list under each key \<open>k\<close> has
  \<open>f k\<close> values. \<open>names_of\<close> and \<open>cols_of\<close>: the names of a list of metrics and the
  columns made of a list of names. \<open>table_aligned args mcols r n d\<close>: after \<open>n\<close>
  combinations of \<open>r\<close> runs each, every column of the table \<open>d\<close> has \<open>n * r\<close> values,
  and the columns are the keys to save, the columns every run extends and, once a run is
  recorded, the columns \<open>mcols\<close> of the metrics.
\<close>

definition lengths_are :: "(string, 'a list) dict \<Rightarrow> (string \<Rightarrow> nat) \<Rightarrow> bool" where
  "lengths_are d f =
     (distinct (dict_keys d) \<and> (\<forall>k xs. dict_get d k = Some xs \<longrightarrow> length xs = f k))"

definition names_of :: "pyval list \<Rightarrow> string list" where
  "names_of ms = concat (map (\<lambda>m. case attr_name m of Inl _ \<Rightarrow> [] | Inr nm \<Rightarrow> [nm]) ms)"

definition cols_of :: "string list \<Rightarrow> string list" where
  "cols_of ns = concat (map (\<lambda>nm. [nm @ ''_train'', nm @ ''_val'']) ns)"

definition table_aligned ::
  "('d, 'l) arguments \<Rightarrow> string set \<Rightarrow> nat \<Rightarrow> nat \<Rightarrow> (string, pyval list) dict \<Rightarrow> bool" where
  "table_aligned args mcols r n d =
     (lengths_are d (\<lambda>_. n * r)
      \<and> set (dict_keys d) =
          set (hyperparameters_key_to_save args) \<union> set (reserved_columns args)
          \<union> (if 0 < n * r then mcols else {}))"

section \<open>Verified properties\<close>

subsection \<open>Criterion\<close>

text \<open>
  C4, as stated: a criterion built with loss function \<open>L\<close> and reduction function \<open>R\<close>
  returns \<open>R (L predicted target)\<close>. The code does not: with the element-wise squared
  error as \<open>L\<close> and the sum as \<open>R\<close>, the call on \<open>[1, 2]\<close> and \<open>[0, 0]\<close> returns the
  unreduced \<open>[1, 4]\<close>, not \<open>[5]\<close>.
\<close>

theorem Criterion_call_reduction_counterexample:
  "Criterion_call
     (Criterion_init ''loss'' (map2 (\<lambda>a b. (a - b) * (a - b))) (Some (\<lambda>xs. [sum_list xs])))
     [1, 2 :: int] [0, 0]
   \<noteq> (\<lambda>xs. [sum_list xs]) (map2 (\<lambda>a b. (a - b) * (a - b)) [1, 2 :: int] [0, 0])"
  by (simp add: Criterion_call_def Criterion_init_def)

text \<open>
  C4, amended: calling a criterion built with loss function \<open>L\<close> returns
  \<open>L predicted target\<close> unchanged, whether a reduction function was supplied or not;
  \<open>__call__\<close> never applies the stored reduction function.
\<close>

theorem Criterion_call_unreduced:
  "Criterion_call (Criterion_init nm L R) predicted target = L predicted target"
  by (simp add: Criterion_call_def Criterion_init_def)

subsection \<open>OptimizerWrapper\<close>

text \<open>
  C7: for every wrapper \<open>w\<close> that \<open>__init__\<close> builds from a constructor \<open>C\<close> and partial
  keyword arguments \<open>P\<close> (no dictionary standing for the empty one), \<open>get_optimizer w N\<close>
  is exactly \<open>C N P\<close>: the constructor runs only then, on the model parameters and the
  unchanged keyword arguments.
\<close>

theorem get_optimizer_deferred:
  assumes "OptimizerWrapper_init r C ident P = Inr w"
  shows "get_optimizer w N = C N (case P of None \<Rightarrow> [] | Some p \<Rightarrow> p)"
  using assms
  by (auto simp: OptimizerWrapper_init_def get_optimizer_def split: sum.splits)

theorem get_optimizer_deferred_witness:
  "OptimizerWrapper_init ''<class 'torch.optim.sgd.SGD'>'' (\<lambda>n kw. (n, kw)) ''fast''
       (Some [(''lr'', 1 :: int)])
     = Inr \<lparr>wrapper_name = ''SGD fast'', optimizer_constructor = (\<lambda>n kw. (n, kw)),
            optimizer_partial_params = [(''lr'', 1)]\<rparr>
   \<and> get_optimizer
        \<lparr>wrapper_name = ''SGD fast'', optimizer_constructor = (\<lambda>n kw. (n, kw)),
         optimizer_partial_params = [(''lr'', 1 :: int)]\<rparr> [7 :: nat, 8]
     = ([7, 8], [(''lr'', 1)])"
proof -
  have h: "OptimizerWrapper_init ''<class 'torch.optim.sgd.SGD'>'' (\<lambda>n kw. (n, kw)) ''fast''
             (Some [(''lr'', 1 :: int)])
           = Inr \<lparr>wrapper_name = ''SGD fast'', optimizer_constructor = (\<lambda>n kw. (n, kw)),
                  optimizer_partial_params = [(''lr'', 1)]\<rparr>"
    by (simp add: OptimizerWrapper_init_def py_index_def)
  show ?thesis
    using h get_optimizer_deferred [OF h, of "[7 :: nat, 8]"] by simp
qed

subsection \<open>MultyHeadCriterion\<close>

lemma collect_head_losses_raises:
  "ks \<noteq> [] \<Longrightarrow> \<exists>e. collect_head_losses ks predicted target acc = Inl e"
  by (cases ks) (auto simp: call_str_def split: sum.splits)

text \<open>
  C10: for every MultyHeadCriterion whose \<open>loss_functions\<close> dictionary is not empty,
  every call raises: the loop unpacks the first key, a string, and either the unpacking
  fails or the second character is called as a function. No loss is ever returned.
\<close>

theorem MultyHeadCriterion_call_raises:
  assumes "loss_functions self \<noteq> []"
  shows "\<exists>e. MultyHeadCriterion_call self scale stack sum0 predicted target = Inl e"
proof -
  from assms have "dict_keys (loss_functions self) \<noteq> []"
    by (simp add: dict_keys_def)
  then obtain e where
    "collect_head_losses (dict_keys (loss_functions self)) predicted target ([] :: 'c list) = Inl e"
    using collect_head_losses_raises by blast
  then show ?thesis
    by (simp add: MultyHeadCriterion_call_def)
qed

theorem MultyHeadCriterion_call_raises_witness:
  "loss_functions
     (MultyHeadCriterion_init ''heads'' [(''emotion'', \<lambda>(p :: int) (t :: int). p - t)] [1] None) \<noteq> []
   \<and> (\<exists>e. MultyHeadCriterion_call
            (MultyHeadCriterion_init ''heads'' [(''emotion'', \<lambda>(p :: int) (t :: int). p - t)] [1] None)
            (\<lambda>ws x. x) sum_list (\<lambda>x. x) (\<lambda>k. Inr 3) (\<lambda>k. Inr 1) = Inl e)"
proof -
  have h: "loss_functions
     (MultyHeadCriterion_init ''heads'' [(''emotion'', \<lambda>(p :: int) (t :: int). p - t)] [1] None) \<noteq> []"
    by (simp add: MultyHeadCriterion_init_def)
  show ?thesis
    using h MultyHeadCriterion_call_raises [OF h] by blast
qed

subsection \<open>The Cartesian product\<close>




subsection \<open>Randomized search\<close>

text \<open>
  C2, at a failing input: with the cycling samplers and \<open>n_run = 3\<close>, the loop accepts
  (1, 10) and (2, 20); the third draw is (1, 20), a combination not accepted before, and
  the body discards it, because its model dictionary equals one accepted model dictionary
  and its training dictionary equals one accepted training dictionary.
\<close>

theorem sampling_body_discards_new_combination:
  "sampling_loop 2 cycling_model_samplers cycling_training_samplers (initial_sampling_state 0)
     = Some (Inr \<lparr>counter_i = 2,
                  model_hyperparameters_to_test = [[(''units'', PyInt 1)], [(''units'', PyInt 2)]],
                  training_hyperparameters_to_test = [[(''lr'', PyInt 10)], [(''lr'', PyInt 20)]],
                  source = 2\<rparr>)
   \<and> sample_all cycling_model_samplers [] 2 = Inr ([(''units'', PyInt 1)], 2)
   \<and> sample_all cycling_training_samplers [] 2 = Inr ([(''lr'', PyInt 20)], 3)
   \<and> sampling_body cycling_model_samplers cycling_training_samplers
        \<lparr>counter_i = 2,
         model_hyperparameters_to_test = [[(''units'', PyInt 1)], [(''units'', PyInt 2)]],
         training_hyperparameters_to_test = [[(''lr'', PyInt 10)], [(''lr'', PyInt 20)]],
         source = 2\<rparr>
     = Inr \<lparr>counter_i = 2,
            model_hyperparameters_to_test = [[(''units'', PyInt 1)], [(''units'', PyInt 2)]],
            training_hyperparameters_to_test = [[(''lr'', PyInt 10)], [(''lr'', PyInt 20)]],
            source = 3\<rparr>
   \<and> ([(''units'', PyInt 1)], [(''lr'', PyInt 20)])
       \<notin> set (zip [[(''units'', PyInt 1)], [(''units'', PyInt 2)]]
                   [[(''lr'', PyInt 10)], [(''lr'', PyInt 20)]])"
  by (simp add: sampling_loop.simps initial_sampling_state_def sampling_body_def external_def
        cycling_model_samplers_def cycling_training_samplers_def already_present_def dict_eq_def
        dict_keys_def)

text \<open>
  What does hold of the loop: a draw equal to an accepted pair is discarded, a loop that
  ends has accepted exactly \<open>n_run\<close> draws, and with the cycling samplers and
  \<open>n_run = 3\<close> the loop never ends, every third draw being the new combination (1, 20).
\<close>

lemma py_eq_list_refl: "(\<And>x. x \<in> set xs \<Longrightarrow> py_eq x x) \<Longrightarrow> py_eq_list xs xs"
  by (induction xs) auto

lemma py_eq_refl: "py_eq a a"
  by (induction a) (auto simp: py_eq_list_refl)

lemma dict_eq_refl: "dict_eq d d"
proof -
  have "dict_get d k \<noteq> None" if "k \<in> set (dict_keys d)" for k
    using that by (induction d) (force simp: dict_keys_def)+
  then show ?thesis
    by (auto simp: dict_eq_def list_all_iff py_eq_refl split: option.splits)
qed

lemma sampling_body_discards_duplicate:
  assumes "sample_all model_samplers [] (source s) = Inr (model_d, g1)"
    and "sample_all training_samplers [] g1 = Inr (training_d, g2)"
    and "(model_d, training_d)
           \<in> set (zip (model_hyperparameters_to_test s) (training_hyperparameters_to_test s))"
  shows "sampling_body model_samplers training_samplers s = Inr (s\<lparr>source := g2\<rparr>)"
proof -
  from assms(3) have "model_d \<in> set (model_hyperparameters_to_test s)"
    and "training_d \<in> set (training_hyperparameters_to_test s)"
    by (auto dest: set_zip_leftD set_zip_rightD)
  then have "already_present model_d (model_hyperparameters_to_test s)"
    and "already_present training_d (training_hyperparameters_to_test s)"
    using dict_eq_refl by (auto simp: already_present_def list_ex_iff)
  with assms(1,2) show ?thesis
    by (simp add: sampling_body_def)
qed

lemma sampling_body_counts:
  assumes "sampling_body model_samplers training_samplers s = Inr s'"
    and "counter_i s = int (length (model_hyperparameters_to_test s))"
    and "counter_i s = int (length (training_hyperparameters_to_test s))"
  shows "counter_i s' = int (length (model_hyperparameters_to_test s'))
       \<and> counter_i s' = int (length (training_hyperparameters_to_test s'))
       \<and> counter_i s' \<le> counter_i s + 1"
  using assms
  by (auto simp: sampling_body_def split: sum.splits prod.splits if_splits)

lemma sampling_loop_counts:
  assumes "sampling_loop n_run model_samplers training_samplers s = Some y"
  shows "counter_i s = int (length (model_hyperparameters_to_test s))
       \<and> counter_i s = int (length (training_hyperparameters_to_test s))
       \<and> counter_i s \<le> n_run
       \<longrightarrow> (\<forall>s'. y = Inr s' \<longrightarrow>
              counter_i s' = n_run
              \<and> int (length (model_hyperparameters_to_test s')) = n_run
              \<and> int (length (training_hyperparameters_to_test s')) = n_run)"
  using assms
proof (induction rule: sampling_loop.raw_induct [rotated 1, consumes 1])
  case (1 loop n a b s y)
  show ?case
  proof (intro impI allI)
    fix s'
    assume inv: "counter_i s = int (length (model_hyperparameters_to_test s))
       \<and> counter_i s = int (length (training_hyperparameters_to_test s))
       \<and> counter_i s \<le> n" and y: "y = Inr s'"
    show "counter_i s' = n
              \<and> int (length (model_hyperparameters_to_test s')) = n
              \<and> int (length (training_hyperparameters_to_test s')) = n"
    proof (cases "counter_i s < n")
      case False
      with 1(2) y inv show ?thesis by auto
    next
      case True
      with 1(2) y obtain s1 where body: "sampling_body a b s = Inr s1"
        and rest: "loop n a b s1 = Some (Inr s')"
        by (auto split: sum.splits)
      from sampling_body_counts [OF body] inv True
      have "counter_i s1 = int (length (model_hyperparameters_to_test s1))
       \<and> counter_i s1 = int (length (training_hyperparameters_to_test s1))
       \<and> counter_i s1 \<le> n" by auto
      with 1(1) [OF rest] show ?thesis by simp
    qed
  qed
qed

lemma sampling_loop_accepts_n_run:
  assumes "sampling_loop n_run model_samplers training_samplers (initial_sampling_state g) = Some (Inr s)"
    and "0 \<le> n_run"
  shows "length (model_hyperparameters_to_test s) = nat n_run
       \<and> length (training_hyperparameters_to_test s) = nat n_run"
  using sampling_loop_counts [OF assms(1)] assms(2)
  by (auto simp: initial_sampling_state_def)

lemma cycling_samplers_stuck:
  "sampling_loop n a b s = Some y \<Longrightarrow>
   \<not> (n = 3 \<and> a = cycling_model_samplers \<and> b = cycling_training_samplers
      \<and> counter_i s = 2
      \<and> model_hyperparameters_to_test s = [[(''units'', PyInt 1)], [(''units'', PyInt 2)]]
      \<and> training_hyperparameters_to_test s = [[(''lr'', PyInt 10)], [(''lr'', PyInt 20)]])"
proof (induction rule: sampling_loop.raw_induct [rotated 1, consumes 1])
  case (1 loop n a b s y)
  show ?case
  proof
    assume inv: "n = 3 \<and> a = cycling_model_samplers \<and> b = cycling_training_samplers
      \<and> counter_i s = 2
      \<and> model_hyperparameters_to_test s = [[(''units'', PyInt 1)], [(''units'', PyInt 2)]]
      \<and> training_hyperparameters_to_test s = [[(''lr'', PyInt 10)], [(''lr'', PyInt 20)]]"
    then have "sampling_body a b s = Inr (s\<lparr>source := Suc (source s)\<rparr>)"
      by (simp add: sampling_body_def cycling_model_samplers_def cycling_training_samplers_def
            external_def already_present_def dict_eq_def dict_keys_def)
    with inv 1(2) have "loop n a b (s\<lparr>source := Suc (source s)\<rparr>) = Some y" by simp
    from 1(1) [OF this] inv show False by simp
  qed
qed

lemma sampling_loop_cycling_samplers_diverges:
  "sampling_loop 3 cycling_model_samplers cycling_training_samplers (initial_sampling_state 0) = None"
proof -
  let ?s = "\<lparr>counter_i = 2,
             model_hyperparameters_to_test = [[(''units'', PyInt 1)], [(''units'', PyInt 2)]],
             training_hyperparameters_to_test = [[(''lr'', PyInt 10)], [(''lr'', PyInt 20)]],
             source = Suc (Suc 0)\<rparr>"
  have "sampling_loop 3 cycling_model_samplers cycling_training_samplers (initial_sampling_state 0)
        = sampling_loop 3 cycling_model_samplers cycling_training_samplers ?s"
    apply (subst sampling_loop.simps)
    apply (simp add: initial_sampling_state_def sampling_body_def cycling_model_samplers_def
          cycling_training_samplers_def external_def already_present_def)
    apply (subst sampling_loop.simps)
    apply (simp add: initial_sampling_state_def sampling_body_def cycling_model_samplers_def
          cycling_training_samplers_def external_def already_present_def dict_eq_def dict_keys_def)
    done
  moreover have "sampling_loop 3 cycling_model_samplers cycling_training_samplers ?s = None"
    using cycling_samplers_stuck [of 3 cycling_model_samplers cycling_training_samplers ?s]
    by (cases "sampling_loop 3 cycling_model_samplers cycling_training_samplers ?s") auto
  ultimately show ?thesis by simp
qed

lemma constant_samplers_stuck:
  "sampling_loop n a b s = Some y \<Longrightarrow>
   \<not> (n = 2 \<and> a = constant_model_samplers \<and> b = constant_training_samplers
      \<and> counter_i s = 1
      \<and> model_hyperparameters_to_test s = [[(''units'', PyInt 1)]]
      \<and> training_hyperparameters_to_test s = [[(''lr'', PyInt 10)]])"
proof (induction rule: sampling_loop.raw_induct [rotated 1, consumes 1])
  case (1 loop n a b s y)
  show ?case
  proof
    assume inv: "n = 2 \<and> a = constant_model_samplers \<and> b = constant_training_samplers
      \<and> counter_i s = 1
      \<and> model_hyperparameters_to_test s = [[(''units'', PyInt 1)]]
      \<and> training_hyperparameters_to_test s = [[(''lr'', PyInt 10)]]"
    then have "sampling_body a b s = Inr s"
      by (simp add: sampling_body_def constant_model_samplers_def constant_training_samplers_def
            external_def already_present_def dict_eq_def dict_keys_def)
    with inv 1(2) have "loop n a b s = Some y" by simp
    from 1(1) [OF this] inv show False by simp
  qed
qed

text \<open>
  C9, as stated, fails: with samplers that always draw the same combination and
  \<open>n_run = 2\<close>, the first draw is accepted, every later draw is a duplicate, and the loop
  never ends.
\<close>

theorem sampling_loop_constant_samplers_diverges:
  "sampling_loop 2 constant_model_samplers constant_training_samplers (initial_sampling_state ())
     = None"
proof -
  let ?s = "\<lparr>counter_i = 1, model_hyperparameters_to_test = [[(''units'', PyInt 1)]],
             training_hyperparameters_to_test = [[(''lr'', PyInt 10)]], source = ()\<rparr>"
  have "sampling_loop 2 constant_model_samplers constant_training_samplers
          (initial_sampling_state ())
        = sampling_loop 2 constant_model_samplers constant_training_samplers ?s"
    by (subst sampling_loop.simps)
       (simp add: initial_sampling_state_def sampling_body_def constant_model_samplers_def
          constant_training_samplers_def external_def already_present_def)
  moreover have "sampling_loop 2 constant_model_samplers constant_training_samplers ?s = None"
    using constant_samplers_stuck [of 2 constant_model_samplers constant_training_samplers ?s]
    by (cases "sampling_loop 2 constant_model_samplers constant_training_samplers ?s") auto
  ultimately show ?thesis by simp
qed

text \<open>
  C9, amended: for \<open>n_run\<close> at most 1, and every pair of sampler dictionaries, the loop
  ends: no draw can be a duplicate while nothing is accepted, so the first draw is
  accepted (or a sampler raises). For larger \<open>n_run\<close> the loop ends only if the samplers
  go on delivering draws that are not rejected.
\<close>

theorem sampling_loop_terminates_single:
  assumes "n_run \<le> 1"
  shows "\<exists>r. sampling_loop n_run model_samplers training_samplers (initial_sampling_state g) = Some r"
proof (cases "sampling_body model_samplers training_samplers (initial_sampling_state g)")
  case (Inl e)
  then show ?thesis
    by (subst sampling_loop.simps) simp
next
  case (Inr s')
  then have "counter_i s' = 1"
    by (auto simp: sampling_body_def initial_sampling_state_def already_present_def
          split: sum.splits prod.splits)
  with assms have "sampling_loop n_run model_samplers training_samplers s' = Some (Inr s')"
    by (subst sampling_loop.simps) simp
  with Inr show ?thesis
    by (subst sampling_loop.simps) simp
qed

theorem sampling_loop_terminates_single_witness:
  "(1 :: int) \<le> 1 \<and>
   (\<exists>r. sampling_loop 1 constant_model_samplers constant_training_samplers
          (initial_sampling_state ()) = Some r)"
  using sampling_loop_terminates_single [of 1 constant_model_samplers constant_training_samplers "()"]
  by simp

subsection \<open>Dictionaries and loops\<close>

lemma dict_get_dict_set:
  "dict_get (dict_set d k v) k' = (if k' = k then Some v else dict_get d k')"
  by (induction d) auto

lemma dict_keys_dict_set:
  "set (dict_keys (dict_set d k v)) = insert k (set (dict_keys d))"
  by (induction d) (force simp: dict_keys_def)+

lemma dict_contains_keys: "dict_contains d k \<longleftrightarrow> k \<in> set (dict_keys d)"
  by (induction d) (auto simp: dict_contains_def dict_keys_def)

lemma dict_get_Some_keys: "dict_get d k = Some v \<Longrightarrow> k \<in> set (dict_keys d)"
  using dict_contains_keys [of d k] by (simp add: dict_contains_def)

lemma list_append_at_Inr:
  assumes "list_append_at d k arg = Inr d'"
  obtains xs v where "dict_get d k = Some xs" and "arg = Inr v" and "d' = dict_set d k (xs @ [v])"
  using assms
  by (auto simp: list_append_at_def dict_lookup_def split: option.splits sum.splits)

lemma list_append_at_keys:
  assumes "list_append_at d k arg = Inr d'"
  shows "set (dict_keys d') = set (dict_keys d)"
  using assms
  by (auto elim!: list_append_at_Inr simp: dict_keys_dict_set dest: dict_get_Some_keys)

lemma list_append_at_other:
  assumes "list_append_at d k arg = Inr d'" and "k' \<noteq> k"
  shows "dict_get d' k' = dict_get d k'"
  using assms by (auto elim!: list_append_at_Inr simp: dict_get_dict_set)

lemma list_append_at_same:
  assumes "list_append_at d k arg = Inr d'"
  shows "\<exists>xs v. dict_get d k = Some xs \<and> arg = Inr v \<and> dict_get d' k = Some (xs @ [v])"
  using assms by (auto elim!: list_append_at_Inr simp: dict_get_dict_set)

lemma for_each_invariant:
  assumes "for_each body xs s = Inr s'" and "P s"
    and "\<And>x t t'. x \<in> set xs \<Longrightarrow> P t \<Longrightarrow> body x t = Inr t' \<Longrightarrow> P t'"
  shows "P s'"
  using assms
proof (induction xs arbitrary: s)
  case Nil
  then show ?case by simp
next
  case (Cons x xs)
  from Cons.prems(1) obtain t where t: "body x s = Inr t" and rest: "for_each body xs t = Inr s'"
    by (auto split: sum.splits)
  have pt: "P t" using Cons.prems(3) [of x s t] Cons.prems(2) t by simp
  show ?case
  proof (rule Cons.IH [OF rest pt])
    fix y u u'
    assume "y \<in> set xs" "P u" "body y u = Inr u'"
    then show "P u'" using Cons.prems(3) [of y u u'] by simp
  qed
qed

lemma pd_DataFrame_columns:
  "pd_DataFrame astype0 d = Inr df \<Longrightarrow>
   columns df = map (\<lambda>c. (fst c, map (astype0 (snd c)) (snd c))) d"
  by (auto simp: pd_DataFrame_def split: list.splits if_splits)

subsection \<open>The table of \<open>collect_results\<close>\<close>

text \<open>
  C6: whenever \<open>collect_results\<close> returns, the table it returns is the one stored under
  \<open>path_to_results\<close>; it is the table \<open>pd.DataFrame\<close> makes of the accumulated lists,
  the columns kept in name, order and length and each converted to the type of the
  column, and writing it is the last effect on the world.
\<close>

theorem collect_results_returns_dumped_table:
  assumes "collect_results env args w = Inr (df, w')"
  shows "dict_get (files w') (path_to_results args) = Some df
       \<and> (\<exists>ts. build_table env args w = Inr ts \<and> pd_DataFrame (astype env) (fst ts) = Inr df
              \<and> columns df = map (\<lambda>c. (fst c, map (astype env (snd c)) (snd c))) (fst ts)
              \<and> w' = (snd (snd ts))\<lparr>files := dict_set (files (snd (snd ts))) (path_to_results args) df\<rparr>)"
proof -
  from assms obtain ts where ts: "build_table env args w = Inr ts"
    by (auto simp: collect_results_def split: sum.splits)
  with assms obtain df0 where df0: "pd_DataFrame (astype env) (fst ts) = Inr df0"
    by (auto simp: collect_results_def split: sum.splits)
  with assms ts have dump: "joblib_dump env df0 (path_to_results args) (snd (snd ts)) = Inr w'"
    and eq: "df = df0"
    by (auto simp: collect_results_def split: sum.splits)
  from dump have w':
    "w' = (snd (snd ts))\<lparr>files := dict_set (files (snd (snd ts))) (path_to_results args) df0\<rparr>"
    by (auto simp: joblib_dump_def split: option.splits)
  then have "dict_get (files w') (path_to_results args) = Some df0"
    by (simp add: dict_get_dict_set)
  with ts df0 eq w' pd_DataFrame_columns [OF df0] show ?thesis by auto
qed

theorem collect_results_returns_dumped_table_witness:
  "collect_results example_collaborators
       (example_arguments\<lparr>iterator := grid_iterator [example_training] [example_model]\<rparr>)
       example_world
     = Inr (DataFrame [(''num_epochs'', [PyInt 5]), (''time'', [PyFloat 2]), (''seed'', [PyInt 7])],
            \<lparr>files = [(''results.pkl'',
                       DataFrame [(''num_epochs'', [PyInt 5]), (''time'', [PyFloat 2]),
                                  (''seed'', [PyInt 7])])],
             stdout = [], framework = 2\<rparr>)
   \<and> dict_get
        (files \<lparr>files = [(''results.pkl'',
                           DataFrame [(''num_epochs'', [PyInt 5]), (''time'', [PyFloat 2]),
                                      (''seed'', [PyInt 7])])],
                stdout = [], framework = (2 :: nat)\<rparr>)
        (path_to_results
           (example_arguments\<lparr>iterator := grid_iterator [example_training] [example_model]\<rparr>))
     = Some (DataFrame [(''num_epochs'', [PyInt 5]), (''time'', [PyFloat 2]), (''seed'', [PyInt 7])])"
proof -
  have h: "collect_results example_collaborators
       (example_arguments\<lparr>iterator := grid_iterator [example_training] [example_model]\<rparr>)
       example_world
     = Inr (DataFrame [(''num_epochs'', [PyInt 5]), (''time'', [PyFloat 2]), (''seed'', [PyInt 7])],
            \<lparr>files = [(''results.pkl'',
                       DataFrame [(''num_epochs'', [PyInt 5]), (''time'', [PyFloat 2]),
                                  (''seed'', [PyInt 7])])],
             stdout = [], framework = 2\<rparr>)"
    by code_simp
  from collect_results_returns_dumped_table [OF h] h show ?thesis by blast
qed

text \<open>
  C1, at a failing input: one combination, the seeds \<open>[0, 1]\<close> and one key to save. The
  loops leave one value in the column of the key and two in the columns \<open>time\<close> and
  \<open>seed\<close>, and the construction of the table raises \<open>ValueError\<close>: nothing is returned
  or stored.
\<close>

theorem collect_results_two_seeds_raises:
  "build_table example_collaborators
       (example_arguments\<lparr>iterator := grid_iterator [example_training] [example_model],
                           seeds := Some [0, 1]\<rparr>)
       example_world
     = Inr ([(''num_epochs'', [PyInt 5]), (''time'', [PyFloat 2, PyFloat 2]),
             (''seed'', [PyInt 0, PyInt 1])],
            2, \<lparr>files = [], stdout = [], framework = 4\<rparr>)
   \<and> grid_search_train_validation example_collaborators [example_model] [example_training]
       (example_arguments\<lparr>seeds := Some [0, 1]\<rparr>) example_world
     = Inl ValueError"
  by code_simp

subsection \<open>What the loops of \<open>collect_results\<close> leave in the table\<close>

lemma combination_body_Inr:
  fixes ts :: "'w table_state"
  assumes "combination_body env args test_iterator item ts = Inr ts'"
    and "seeds args = Some ss"
  shows "\<exists>criterion (st :: 'w run_state) d1.
      for_each (\<lambda>key d. list_append_at d key
                  (dict_lookup (dict_merge (fst (snd item)) (snd (snd item))) key))
        (hyperparameters_key_to_save args) (fst ts) = Inr d1
      \<and> for_each (record_row args (fst (snd item)) criterion st) (enumerate_list ss) d1
          = Inr (fst ts')"
  using assms
  unfolding combination_body_def Let_def
  apply (auto split: sum.splits)
  apply (rule exI)
  apply (rule exI)
  apply assumption
  done

lemma fold_dict_set_keys:
  "set (dict_keys (fold (\<lambda>key d. dict_set d key v) ks d)) = set ks \<union> set (dict_keys d)"
  by (induction ks arbitrary: d) (auto simp: dict_keys_dict_set)

lemma dict_keys_Nil: "dict_keys [] = []"
  by (simp add: dict_keys_def)

lemma initial_dataframe_dict_keys:
  "set (dict_keys (initial_dataframe_dict args)) =
     set (hyperparameters_key_to_save args) \<union> {''time'', ''seed''}
     \<union> (if save_loss_values args then {''train_loss'', ''val_loss''} else {})"
  by (auto simp: initial_dataframe_dict_def Let_def dict_keys_dict_set fold_dict_set_keys dict_keys_Nil)

lemma dict_get_Some_in_set: "dict_get d k = Some v \<Longrightarrow> (k, v) \<in> set d"
  by (induction d) (auto split: if_splits)

lemma dict_lookup_contains: "dict_contains d k \<Longrightarrow> \<exists>v. dict_lookup d k = Inr v"
  by (auto simp: dict_contains_def dict_lookup_def)

lemma dict_merge_contains:
  "dict_contains a k \<Longrightarrow> dict_contains (dict_merge a b) k"
proof -
  have "set (dict_keys (fold (\<lambda>kv d. dict_set d (fst kv) (snd kv)) b a)) = set (dict_keys a) \<union> fst ` set b" for a :: "('a \<times> 'b) list"
    by (induction b arbitrary: a) (auto simp: dict_keys_dict_set)
  then show "dict_contains a k \<Longrightarrow> dict_contains (dict_merge a b) k"
    by (simp add: dict_contains_keys dict_merge_def)
qed

lemma has_at_least_mono:
  assumes "list_append_at d k arg = Inr d'" and "has_at_least d nm n"
  shows "has_at_least d' nm n"
  using assms
  by (auto elim!: list_append_at_Inr simp: has_at_least_def dict_get_dict_set
        split: option.splits if_splits)

lemma has_at_least_Suc:
  assumes "list_append_at d k arg = Inr d'" and "has_at_least d k n"
  shows "has_at_least d' k (Suc n)"
  using assms
  by (auto elim!: list_append_at_Inr simp: has_at_least_def dict_get_dict_set split: option.splits)

lemma list_append_at_Inl:
  assumes "list_append_at d k arg = Inl e" and "has_at_least d k n"
  shows "arg = Inl e"
  using assms
  by (auto simp: list_append_at_def dict_lookup_def has_at_least_def split: option.splits sum.splits)

lemma has_at_least_dict_set: "has_at_least (dict_set d k []) k 0"
  by (simp add: has_at_least_def dict_get_dict_set)

lemma has_at_least_dict_set_other: "has_at_least d nm 0 \<Longrightarrow> has_at_least (dict_set d k []) nm 0"
  by (auto simp add: has_at_least_def dict_get_dict_set split: option.splits)

lemma has_at_least_le: "has_at_least d k n \<Longrightarrow> m \<le> n \<Longrightarrow> has_at_least d k m"
  by (auto simp: has_at_least_def split: option.splits)

lemma results_value_ok:
  "has_at_least d nm (Suc k) \<Longrightarrow> \<exists>v. results_value d nm k = Inr v"
  by (auto simp: has_at_least_def results_value_def dict_lookup_def py_index_def split: option.splits)

lemma passes_Inr: "Q x \<Longrightarrow> passes (Inr x) Q"
  by (simp add: passes_def)

lemma passes_bind:
  assumes "passes r Q1" and "\<And>x. r = Inr x \<Longrightarrow> Q1 x \<Longrightarrow> passes (k x) Q"
  shows "passes (case r of Inl e \<Rightarrow> Inl e | Inr x \<Rightarrow> k x) Q"
  using assms by (cases r) (auto simp: passes_def)

lemma passes_external: "passes (external r) (\<lambda>x. r = Inr x)"
  by (cases r) (auto simp: passes_def external_def)

lemma passes_weaken: "passes r Q \<Longrightarrow> (\<And>x. r = Inr x \<Longrightarrow> Q x \<Longrightarrow> Q' x) \<Longrightarrow> passes r Q'"
  by (cases r) (auto simp: passes_def)

lemma passes_lookup: "dict_contains d k \<Longrightarrow> passes (dict_lookup d k) (\<lambda>v. dict_get d k = Some v)"
  by (auto simp: passes_def dict_contains_def dict_lookup_def)

lemma passes_pop:
  "dict_contains d k \<Longrightarrow> passes (dict_pop d k) (\<lambda>d'. d' = filter (\<lambda>kv. fst kv \<noteq> k) d)"
  by (auto simp: passes_def dict_contains_def dict_pop_def)

lemma passes_append:
  assumes "has_at_least d k n" and "arg = Inr v"
  shows "passes (list_append_at d k arg)
           (\<lambda>d'. has_at_least d' k (Suc n) \<and> (\<forall>nm m. has_at_least d nm m \<longrightarrow> has_at_least d' nm m))"
proof (cases "list_append_at d k arg")
  case (Inl e)
  from list_append_at_Inl [OF Inl assms(1)] assms(2) show ?thesis by simp
next
  case (Inr d')
  with has_at_least_Suc [OF Inr assms(1)] has_at_least_mono [OF Inr] show ?thesis
    by (auto simp: passes_def)
qed

lemma for_each_passes:
  assumes "P s" and "\<And>x t. x \<in> set xs \<Longrightarrow> P t \<Longrightarrow> passes (body x t) P"
  shows "passes (for_each body xs s) P"
  using assms
proof (induction xs arbitrary: s)
  case Nil
  then show ?case by (simp add: passes_def)
next
  case (Cons x xs)
  have "passes (body x s) P" using Cons.prems by simp
  then show ?case
    using Cons.IH Cons.prems(2)
    by (cases "body x s") (auto simp: passes_def)
qed

lemma record_metric_passes:
  assumes "attr_name metric = Inr nm"
    and "\<not> isl (history_value result ''train'' nm idx)" and "\<not> isl (history_value result ''val'' nm idx)"
    and "has_at_least (train_results st) nm n" and "has_at_least (val_results st) nm n"
  shows "passes (record_metric result idx metric st)
           (\<lambda>st'. fitting_times st' = fitting_times st \<and> run_idx st' = run_idx st \<and> world st' = world st
                 \<and> has_at_least (train_results st') nm (Suc n) \<and> has_at_least (val_results st') nm (Suc n)
                 \<and> (\<forall>k m. has_at_least (train_results st) k m \<longrightarrow> has_at_least (train_results st') k m)
                 \<and> (\<forall>k m. has_at_least (val_results st) k m \<longrightarrow> has_at_least (val_results st') k m))"
proof -
  from assms(2,3) obtain v1 v2 where v: "history_value result ''train'' nm idx = Inr v1"
    "history_value result ''val'' nm idx = Inr v2"
    by (cases "history_value result ''train'' nm idx"; cases "history_value result ''val'' nm idx") auto
  show ?thesis
    unfolding record_metric_def
    apply (simp add: assms(1))
    apply (rule passes_bind [OF passes_append [OF assms(4) v(1)]])
    apply (rule passes_bind [OF passes_append [OF assms(5) v(2)]])
    apply (rule passes_Inr)
    apply simp
    done
qed

lemma not_isl_Inr: "\<not> isl r \<Longrightarrow> \<exists>x. r = Inr x"
  by (cases r) auto

lemma well_formed_training_criterion:
  assumes "well_formed_training th"
  shows "\<exists>c nm. dict_get th ''criterion'' = Some c \<and> attr_name c = Inr nm"
  using assms
  by (auto simp: well_formed_training_def split: option.splits dest: not_isl_Inr)

lemma well_formed_training_metrics:
  assumes "well_formed_training th"
  shows "\<exists>ms. get_metrics th = Inr ms \<and> (\<forall>m \<in> set ms. \<exists>nm. attr_name m = Inr nm)"
  using assms
  by (auto simp: well_formed_training_def list_all_iff split: sum.splits dest: not_isl_Inr)

lemma metric_names_set:
  assumes "get_metrics th = Inr ms"
  shows "set (metric_names th) = {nm. \<exists>m \<in> set ms. attr_name m = Inr nm}"
  using assms by (auto simp: metric_names_def split: sum.splits)

lemma result_names_set:
  assumes "dict_get th ''criterion'' = Some c" and "attr_name c = Inr cname"
    and "get_metrics th = Inr ms"
  shows "set (result_names th) = insert cname {nm. \<exists>m \<in> set ms. attr_name m = Inr nm}"
  using assms by (simp add: result_names_def metric_names_set)

lemma complete_result_value:
  assumes "complete_result th result" and "history_index th = Inr idx"
    and "nm \<in> set (result_names th)"
  shows "\<not> isl (history_value result ''train'' nm idx) \<and> \<not> isl (history_value result ''val'' nm idx)"
  using assms by (auto simp: complete_result_def list_all_iff)

lemma record_metrics_passes:
  assumes "\<forall>m \<in> set ms. \<exists>nm. attr_name m = Inr nm
             \<and> \<not> isl (history_value result ''train'' nm idx)
             \<and> \<not> isl (history_value result ''val'' nm idx)
             \<and> has_at_least (train_results st) nm n \<and> has_at_least (val_results st) nm n"
  shows "passes (for_each (record_metric result idx) ms st)
           (\<lambda>st'. fitting_times st' = fitting_times st \<and> run_idx st' = run_idx st
                 \<and> world st' = world st
                 \<and> (\<forall>m \<in> set ms. \<forall>nm. attr_name m = Inr nm \<longrightarrow>
                        has_at_least (train_results st') nm (Suc n)
                        \<and> has_at_least (val_results st') nm (Suc n))
                 \<and> (\<forall>k j. has_at_least (train_results st) k j \<longrightarrow> has_at_least (train_results st') k j)
                 \<and> (\<forall>k j. has_at_least (val_results st) k j \<longrightarrow> has_at_least (val_results st') k j))"
  using assms
proof (induction ms arbitrary: st)
  case Nil
  then show ?case by (simp add: passes_def)
next
  case (Cons m ms)
  from Cons.prems obtain nm where nm: "attr_name m = Inr nm"
    "\<not> isl (history_value result ''train'' nm idx)" "\<not> isl (history_value result ''val'' nm idx)"
    "has_at_least (train_results st) nm n" "has_at_least (val_results st) nm n"
    by auto
  note step = record_metric_passes [OF nm]
  show ?case
  proof (cases "record_metric result idx m st")
    case (Inl e)
    with step show ?thesis by (simp add: passes_def)
  next
    case (Inr st1)
    with step have st1: "fitting_times st1 = fitting_times st" "run_idx st1 = run_idx st"
      "world st1 = world st"
      "has_at_least (train_results st1) nm (Suc n)" "has_at_least (val_results st1) nm (Suc n)"
      "\<And>k j. has_at_least (train_results st) k j \<Longrightarrow> has_at_least (train_results st1) k j"
      "\<And>k j. has_at_least (val_results st) k j \<Longrightarrow> has_at_least (val_results st1) k j"
      by (auto simp: passes_def)
    have "\<forall>m \<in> set ms. \<exists>nm. attr_name m = Inr nm
             \<and> \<not> isl (history_value result ''train'' nm idx)
             \<and> \<not> isl (history_value result ''val'' nm idx)
             \<and> has_at_least (train_results st1) nm n \<and> has_at_least (val_results st1) nm n"
      using Cons.prems st1(6,7) by fastforce
    from Cons.IH [OF this] show ?thesis
    proof (cases "for_each (record_metric result idx) ms st1")
      case (Inl e)
      with \<open>passes (for_each (record_metric result idx) ms st1) _\<close> Inr show ?thesis
        by (simp add: passes_def)
    next
      case (Inr st')
      with \<open>passes (for_each (record_metric result idx) ms st1) _\<close>
      have post: "fitting_times st' = fitting_times st1" "run_idx st' = run_idx st1"
        "world st' = world st1"
        "\<forall>m \<in> set ms. \<forall>nm. attr_name m = Inr nm \<longrightarrow>
            has_at_least (train_results st') nm (Suc n) \<and> has_at_least (val_results st') nm (Suc n)"
        "\<And>k j. has_at_least (train_results st1) k j \<Longrightarrow> has_at_least (train_results st') k j"
        "\<And>k j. has_at_least (val_results st1) k j \<Longrightarrow> has_at_least (val_results st') k j"
        by (auto simp: passes_def)
      from post st1 nm(1) \<open>record_metric result idx m st = Inr st1\<close> Inr show ?thesis
        by (auto simp: passes_def)
    qed
  qed
qed

lemma config_params_of_passes:
  assumes "list_all (dict_contains tot) (hyperparameters_key_to_save args)"
  shows "passes (config_params_of args tot) (\<lambda>_. True)"
proof (cases "wandb_params args \<noteq> None")
  case False
  then show ?thesis by (simp add: config_params_of_def passes_def)
next
  case True
  have "passes (for_each
          (\<lambda>key d. (case dict_lookup tot key of
                       Inl e \<Rightarrow> Inl e
                     | Inr v \<Rightarrow> Inr (dict_set d key v)))
          (hyperparameters_key_to_save args) []) (\<lambda>_. True)"
  proof (rule for_each_passes)
    fix x t
    assume "x \<in> set (hyperparameters_key_to_save args)"
    with assms have "dict_contains tot x" by (simp add: list_all_iff)
    from passes_lookup [OF this]
    show "passes (case dict_lookup tot x of Inl e \<Rightarrow> Inl e | Inr v \<Rightarrow> Inr (dict_set t x v)) (\<lambda>_. True)"
      by (rule passes_bind) (simp add: passes_def)
  qed simp
  with True show ?thesis by (simp add: config_params_of_def)
qed

lemma track_run_passes:
  assumes "dict_contains tot ''criterion''" and "well_formed_wandb_params (wandb_params args)"
  shows "passes (track_run env args config k net tot w) (\<lambda>_. True)"
proof (cases "wandb_params args")
  case None
  then show ?thesis by (simp add: track_run_def passes_def)
next
  case (Some params)
  with assms(2) have free: "(dict_contains params ''config'' \<or> dict_contains params ''name'') = False"
    by (simp add: well_formed_wandb_params_def)
  show ?thesis
    unfolding track_run_def Some option.case free if_False
    apply (rule passes_bind [OF passes_external])
    apply (rule passes_bind [OF passes_lookup [OF assms(1)]])
    apply (rule passes_weaken [OF passes_external])
    apply simp
    done
qed

lemma dict_contains_filter:
  "dict_contains (filter P d) k \<Longrightarrow> dict_contains d k"
  by (induction d) (auto simp: dict_contains_def split: if_splits)

lemma passes_seeding:
  "passes (if c then external r else Inr x) (\<lambda>_. True)"
  by (cases r) (auto simp: passes_def external_def)

lemma seed_iteration_passes:
  fixes st :: "'w run_state"
  assumes wf: "well_formed_combination (hyperparameters_key_to_save args) (th, mh)"
    and fit_ok: "fit_results_complete env th"
    and crit: "dict_get th ''criterion'' = Some criterion"
    and idx: "history_index th = Inr idx"
    and ready: "results_ready (result_names th) st"
    and wandb_ok: "well_formed_wandb_params (wandb_params args)"
  shows "passes (seed_iteration env args th mh (dict_merge th mh) criterion idx train_loader val_loader
                   (filter (\<lambda>kv. fst kv \<noteq> ''batch_size'') th) test_iteration st)
           (\<lambda>st'. results_ready (result_names th) st'
                 \<and> length (fitting_times st') = Suc (length (fitting_times st)))"
proof -
  from wf have wft: "well_formed_training th"
    and keys: "list_all (dict_contains (dict_merge th mh)) (hyperparameters_key_to_save args)"
    by (simp_all add: well_formed_combination_def)
  from wf obtain c where c: "dict_get mh ''model_class'' = Some c" and cls: "is_class c"
    by (auto simp: well_formed_combination_def split: option.splits)
  from cls have call: "callable c = True" by (cases c) simp_all
  from c have mc: "dict_contains mh ''model_class''" by (simp add: dict_contains_def)
  from c have lookup: "dict_lookup mh ''model_class'' = Inr c" by (simp add: dict_lookup_def)
  from wft have "\<not> list_ex (dict_contains th) [''train_loader'', ''val_loader'', ''verbose'']"
    by (simp add: well_formed_training_def)
  then have free: "list_ex (dict_contains (filter (\<lambda>kv. fst kv \<noteq> ''batch_size'') th))
                     [''train_loader'', ''val_loader'', ''verbose''] = False"
    by (auto dest: dict_contains_filter)
  from well_formed_training_criterion [OF wft] crit obtain cname where cname: "attr_name criterion = Inr cname"
    by auto
  from well_formed_training_metrics [OF wft] obtain ms where ms: "get_metrics th = Inr ms"
    and ms_ok: "\<forall>m \<in> set ms. \<exists>nm. attr_name m = Inr nm" by blast
  note names = result_names_set [OF crit cname ms]
  from crit have "dict_contains th ''criterion''" by (simp add: dict_contains_def)
  then have tc: "dict_contains (dict_merge th mh) ''criterion''" by (rule dict_merge_contains)
  let ?j = "length (fitting_times st)"
  from ready names have c_ready: "has_at_least (train_results st) cname ?j"
    "has_at_least (val_results st) cname ?j"
    by (auto simp: results_ready_def)
  from ready names have m_ready: "\<And>m nm. m \<in> set ms \<Longrightarrow> attr_name m = Inr nm \<Longrightarrow>
      has_at_least (train_results st) nm ?j \<and> has_at_least (val_results st) nm ?j"
    by (auto simp: results_ready_def)
  show ?thesis
    unfolding seed_iteration_def Let_def
    apply (simp only: lookup call free sum.case if_True if_False)
    apply (rule passes_bind [OF config_params_of_passes [OF keys]])
    apply (rule passes_bind [OF passes_seeding])
    apply (rule passes_bind [OF passes_pop [OF mc]])
    apply (rule passes_bind [OF passes_external])
    apply (simp only: split_beta)
    apply (rule passes_bind [OF track_run_passes [OF tc wandb_ok]])
    apply (rule passes_bind [OF passes_external])
    apply (simp only: split_beta cname sum.case)
    subgoal premises prems for config w1 new_mh built w3 fitted
    proof -
      from prems have "fit env (fst built) train_loader val_loader
          (filter (\<lambda>kv. fst kv \<noteq> ''batch_size'') th) (snd (time_time env w3)) = Inr (fst fitted, snd fitted)"
        by simp
      with fit_ok have complete: "complete_result th (fst fitted)"
        unfolding fit_results_complete_def by blast
      have hv: "\<And>nm. nm \<in> set (result_names th) \<Longrightarrow>
          \<not> isl (history_value (fst fitted) ''train'' nm idx) \<and> \<not> isl (history_value (fst fitted) ''val'' nm idx)"
        using complete_result_value [OF complete idx] by blast
      from hv [of cname] names obtain v1 v2 where v:
        "history_value (fst fitted) ''train'' cname idx = Inr v1"
        "history_value (fst fitted) ''val'' cname idx = Inr v2"
        by (auto dest!: not_isl_Inr)
      have hvm: "\<And>m. m \<in> set ms \<Longrightarrow> \<exists>nm. attr_name m = Inr nm
             \<and> \<not> isl (history_value (fst fitted) ''train'' nm idx)
             \<and> \<not> isl (history_value (fst fitted) ''val'' nm idx)
             \<and> has_at_least (train_results st) nm ?j \<and> has_at_least (val_results st) nm ?j"
      proof -
        fix m assume m: "m \<in> set ms"
        with ms_ok obtain nm where nm: "attr_name m = Inr nm" by blast
        with m names have "nm \<in> set (result_names th)" by auto
        from hv [OF this] m_ready [OF m nm] nm
        show "\<exists>nm. attr_name m = Inr nm
             \<and> \<not> isl (history_value (fst fitted) ''train'' nm idx)
             \<and> \<not> isl (history_value (fst fitted) ''val'' nm idx)
             \<and> has_at_least (train_results st) nm ?j \<and> has_at_least (val_results st) nm ?j"
          by blast
      qed
      show ?thesis
        apply (simp only: ms sum.case)
        apply (rule passes_bind [OF passes_append [OF _ v(1), where n = ?j]])
         apply (simp add: c_ready)
        apply (rule passes_bind [OF passes_append [OF _ v(2), where n = ?j]])
         apply (simp add: c_ready)
        subgoal premises p for tr vr
        proof -
          from p have tr: "has_at_least tr cname (Suc ?j)"
            "\<And>nm m. has_at_least (train_results st) nm m \<Longrightarrow> has_at_least tr nm m"
            and vr: "has_at_least vr cname (Suc ?j)"
            "\<And>nm m. has_at_least (val_results st) nm m \<Longrightarrow> has_at_least vr nm m"
            by simp_all
          let ?st1 = "st\<lparr>fitting_times := fitting_times st @ [fst (time_time env (snd fitted)) - fst (time_time env w3)],
                  world := (world st)\<lparr>framework := snd (time_time env (snd fitted))\<rparr>,
                  train_results := tr, val_results := vr\<rparr>"
          have pre: "\<forall>m \<in> set ms. \<exists>nm. attr_name m = Inr nm
             \<and> \<not> isl (history_value (fst fitted) ''train'' nm idx)
             \<and> \<not> isl (history_value (fst fitted) ''val'' nm idx)
             \<and> has_at_least (train_results ?st1) nm ?j \<and> has_at_least (val_results ?st1) nm ?j"
          proof
            fix m assume "m \<in> set ms"
            from hvm [OF this] obtain nm where "attr_name m = Inr nm"
              "\<not> isl (history_value (fst fitted) ''train'' nm idx)"
              "\<not> isl (history_value (fst fitted) ''val'' nm idx)"
              "has_at_least (train_results st) nm ?j" "has_at_least (val_results st) nm ?j"
              by blast
            with tr(2) vr(2) show "\<exists>nm. attr_name m = Inr nm
             \<and> \<not> isl (history_value (fst fitted) ''train'' nm idx)
             \<and> \<not> isl (history_value (fst fitted) ''val'' nm idx)
             \<and> has_at_least (train_results ?st1) nm ?j \<and> has_at_least (val_results ?st1) nm ?j"
              by simp
          qed
          have "passes (for_each (record_metric (fst fitted) idx) ms ?st1)
             (\<lambda>st'. results_ready (result_names th) (st'\<lparr>run_idx := run_idx st' + 1\<rparr>)
                 \<and> length (fitting_times (st'\<lparr>run_idx := run_idx st' + 1\<rparr>)) = Suc ?j)"
          proof (rule passes_weaken [OF record_metrics_passes [OF pre]])
            fix st' :: "'w run_state"
            assume post: "fitting_times st' = fitting_times ?st1 \<and> run_idx st' = run_idx ?st1
                 \<and> world st' = world ?st1
                 \<and> (\<forall>m \<in> set ms. \<forall>nm. attr_name m = Inr nm \<longrightarrow>
                        has_at_least (train_results st') nm (Suc ?j)
                        \<and> has_at_least (val_results st') nm (Suc ?j))
                 \<and> (\<forall>k j. has_at_least (train_results ?st1) k j \<longrightarrow> has_at_least (train_results st') k j)
                 \<and> (\<forall>k j. has_at_least (val_results ?st1) k j \<longrightarrow> has_at_least (val_results st') k j)"
            then have len: "length (fitting_times st') = Suc ?j" by simp
            from post tr(1) vr(1) have c: "has_at_least (train_results st') cname (Suc ?j)"
              "has_at_least (val_results st') cname (Suc ?j)" by simp_all
            from post have m: "\<And>m nm. m \<in> set ms \<Longrightarrow> attr_name m = Inr nm \<Longrightarrow>
                has_at_least (train_results st') nm (Suc ?j) \<and> has_at_least (val_results st') nm (Suc ?j)"
              by blast
            have "results_ready (result_names th) st'"
              unfolding results_ready_def names len using c m by auto
            with len show "results_ready (result_names th) (st'\<lparr>run_idx := run_idx st' + 1\<rparr>)
                 \<and> length (fitting_times (st'\<lparr>run_idx := run_idx st' + 1\<rparr>)) = Suc ?j"
              by (simp add: results_ready_def)
          qed
          then show ?thesis
            by (rule passes_bind) (simp add: passes_def)
        qed
        done
    qed
    done
qed

lemma table_ready_mono:
  "table_ready args d \<Longrightarrow> (\<And>nm. has_at_least d nm 0 \<Longrightarrow> has_at_least d' nm 0) \<Longrightarrow> table_ready args d'"
  by (simp add: table_ready_def)

lemma seeds_loop_passes:
  fixes st :: "'w run_state"
  assumes wf: "well_formed_combination (hyperparameters_key_to_save args) (th, mh)"
    and fit_ok: "fit_results_complete env th"
    and crit: "dict_get th ''criterion'' = Some criterion"
    and idx: "history_index th = Inr idx"
    and ready: "results_ready (result_names th) st"
    and wandb_ok: "well_formed_wandb_params (wandb_params args)"
  shows "passes (for_each (seed_iteration env args th mh (dict_merge th mh) criterion idx train_loader
                   val_loader (filter (\<lambda>kv. fst kv \<noteq> ''batch_size'') th)) xs st)
           (\<lambda>st'. results_ready (result_names th) st'
                 \<and> length (fitting_times st') = length (fitting_times st) + length xs)"
  using ready
proof (induction xs arbitrary: st)
  case Nil
  then show ?case by (simp add: passes_def)
next
  case (Cons x xs)
  note step = seed_iteration_passes [OF wf fit_ok crit idx Cons.prems wandb_ok, of train_loader val_loader x]
  show ?case
  proof (cases "seed_iteration env args th mh (dict_merge th mh) criterion idx train_loader
                   val_loader (filter (\<lambda>kv. fst kv \<noteq> ''batch_size'') th) x st")
    case (Inl e)
    with step show ?thesis by (simp add: passes_def)
  next
    case (Inr st1)
    with step have st1: "results_ready (result_names th) st1"
      "length (fitting_times st1) = Suc (length (fitting_times st))"
      by (simp_all add: passes_def)
    from Cons.IH [OF st1(1)] st1(2) Inr show ?thesis
      by (cases "for_each (seed_iteration env args th mh (dict_merge th mh) criterion idx train_loader
                   val_loader (filter (\<lambda>kv. fst kv \<noteq> ''batch_size'') th)) xs st1")
         (simp_all add: passes_def)
  qed
qed

lemma empty_results_passes:
  assumes "\<forall>m \<in> set ms. \<exists>nm. attr_name m = Inr nm"
  shows "passes (for_each
             (\<lambda>metric r. (case attr_name metric of
                             Inl e \<Rightarrow> Inl e
                           | Inr nm \<Rightarrow> Inr (dict_set (fst r) nm [], dict_set (snd r) nm [])))
             ms (r :: (string, pyval list) dict \<times> (string, pyval list) dict))
           (\<lambda>r'. (\<forall>nm. has_at_least (fst r) nm 0 \<longrightarrow> has_at_least (fst r') nm 0)
                \<and> (\<forall>nm. has_at_least (snd r) nm 0 \<longrightarrow> has_at_least (snd r') nm 0)
                \<and> (\<forall>m \<in> set ms. \<forall>nm. attr_name m = Inr nm \<longrightarrow>
                      has_at_least (fst r') nm 0 \<and> has_at_least (snd r') nm 0))"
  using assms
proof (induction ms arbitrary: r)
  case Nil
  then show ?case by (simp add: passes_def)
next
  case (Cons m ms)
  from Cons.prems obtain nm where nm: "attr_name m = Inr nm" by auto
  let ?r1 = "(dict_set (fst r) nm [], dict_set (snd r) nm [])"
  from Cons.prems have "\<forall>m \<in> set ms. \<exists>nm. attr_name m = Inr nm" by simp
  note ih = Cons.IH [OF this, of ?r1]
  have r1: "has_at_least (fst ?r1) nm 0" "has_at_least (snd ?r1) nm 0"
    "\<And>k. has_at_least (fst r) k 0 \<Longrightarrow> has_at_least (fst ?r1) k 0"
    "\<And>k. has_at_least (snd r) k 0 \<Longrightarrow> has_at_least (snd ?r1) k 0"
    by (simp_all add: has_at_least_dict_set has_at_least_dict_set_other)
  have unfold: "for_each
             (\<lambda>metric r. (case attr_name metric of
                             Inl e \<Rightarrow> Inl e
                           | Inr nm \<Rightarrow> Inr (dict_set (fst r) nm [], dict_set (snd r) nm [])))
             (m # ms) r
          = for_each
             (\<lambda>metric r. (case attr_name metric of
                             Inl e \<Rightarrow> Inl e
                           | Inr nm \<Rightarrow> Inr (dict_set (fst r) nm [], dict_set (snd r) nm [])))
             ms ?r1"
    by (simp add: nm)
  show ?case
    unfolding unfold
  proof (rule passes_weaken [OF ih])
    fix r'
    assume post: "(\<forall>nm. has_at_least (fst ?r1) nm 0 \<longrightarrow> has_at_least (fst r') nm 0)
                \<and> (\<forall>nm. has_at_least (snd ?r1) nm 0 \<longrightarrow> has_at_least (snd r') nm 0)
                \<and> (\<forall>m \<in> set ms. \<forall>nm. attr_name m = Inr nm \<longrightarrow>
                      has_at_least (fst r') nm 0 \<and> has_at_least (snd r') nm 0)"
    from post r1(1,2) have a: "has_at_least (fst r') nm 0" "has_at_least (snd r') nm 0" by blast+
    from post r1(3) have b: "\<forall>k. has_at_least (fst r) k 0 \<longrightarrow> has_at_least (fst r') k 0" by blast
    from post r1(4) have c: "\<forall>k. has_at_least (snd r) k 0 \<longrightarrow> has_at_least (snd r') k 0" by blast
    from post have d: "\<forall>m \<in> set ms. \<forall>nm. attr_name m = Inr nm \<longrightarrow>
                      has_at_least (fst r') nm 0 \<and> has_at_least (snd r') nm 0" by blast
    from a nm have e: "\<forall>k. attr_name m = Inr k \<longrightarrow> has_at_least (fst r') k 0 \<and> has_at_least (snd r') k 0"
      by simp
    from b c d e show "(\<forall>nm. has_at_least (fst r) nm 0 \<longrightarrow> has_at_least (fst r') nm 0)
                \<and> (\<forall>nm. has_at_least (snd r) nm 0 \<longrightarrow> has_at_least (snd r') nm 0)
                \<and> (\<forall>m \<in> set (m # ms). \<forall>nm. attr_name m = Inr nm \<longrightarrow>
                      has_at_least (fst r') nm 0 \<and> has_at_least (snd r') nm 0)"
      by simp
  qed
qed

lemma has_at_least_contains: "dict_contains d k \<Longrightarrow> has_at_least d k 0"
  by (auto simp: dict_contains_def has_at_least_def)

lemma record_metric_columns_passes:
  assumes "attr_name metric = Inr nm"
    and "has_at_least (train_results st) nm (Suc k)" and "has_at_least (val_results st) nm (Suc k)"
  shows "passes (record_metric_columns st k metric d)
           (\<lambda>d'. \<forall>key. has_at_least d key 0 \<longrightarrow> has_at_least d' key 0)"
proof -
  from results_value_ok [OF assms(2)] results_value_ok [OF assms(3)] obtain v1 v2 where
    v: "results_value (train_results st) nm k = Inr v1" "results_value (val_results st) nm k = Inr v2"
    by blast
  let ?d0 = "if \<not> dict_contains d (nm @ ''_train'') then dict_set d (nm @ ''_train'') [] else d"
  have d0: "has_at_least ?d0 (nm @ ''_train'') 0" "\<And>key. has_at_least d key 0 \<Longrightarrow> has_at_least ?d0 key 0"
    by (simp_all add: has_at_least_dict_set has_at_least_dict_set_other has_at_least_contains)
  show ?thesis
    unfolding record_metric_columns_def
    apply (simp only: assms(1) sum.case)
    apply (rule passes_bind [OF passes_append [OF d0(1) v(1)]])
    subgoal premises p for d1
    proof -
      let ?d2 = "if \<not> dict_contains d1 (nm @ ''_val'') then dict_set d1 (nm @ ''_val'') [] else d1"
      have d2: "has_at_least ?d2 (nm @ ''_val'') 0" "\<And>key. has_at_least d1 key 0 \<Longrightarrow> has_at_least ?d2 key 0"
        by (simp_all add: has_at_least_dict_set has_at_least_dict_set_other has_at_least_contains)
      from p d0(2) have "\<And>key. has_at_least d key 0 \<Longrightarrow> has_at_least d1 key 0" by blast
      with d2(2) have "\<And>key. has_at_least d key 0 \<Longrightarrow> has_at_least ?d2 key 0" by blast
      then show ?thesis
        by (intro passes_weaken [OF passes_append [OF d2(1) v(2)]]) blast
    qed
    done
qed

lemma py_index_ok: "k < length xs \<Longrightarrow> py_index xs (int k) = Inr (xs ! k)"
  by (simp add: py_index_def)

lemma metric_columns_loop_passes:
  assumes "\<forall>m \<in> set ms. \<exists>nm. attr_name m = Inr nm
             \<and> has_at_least (train_results st) nm (Suc k) \<and> has_at_least (val_results st) nm (Suc k)"
  shows "passes (for_each (record_metric_columns st k) ms d)
           (\<lambda>d'. \<forall>key. has_at_least d key 0 \<longrightarrow> has_at_least d' key 0)"
proof (rule for_each_passes [where P = "\<lambda>d'. \<forall>key. has_at_least d key 0 \<longrightarrow> has_at_least d' key 0"])
  show "\<forall>key. has_at_least d key 0 \<longrightarrow> has_at_least d key 0" by simp
next
  fix m and t :: "(string, pyval list) dict"
  assume m: "m \<in> set ms" and inv: "\<forall>key. has_at_least d key 0 \<longrightarrow> has_at_least t key 0"
  from assms m obtain nm where nm: "attr_name m = Inr nm"
    "has_at_least (train_results st) nm (Suc k)" "has_at_least (val_results st) nm (Suc k)"
    by blast
  show "passes (record_metric_columns st k m t)
          (\<lambda>d'. \<forall>key. has_at_least d key 0 \<longrightarrow> has_at_least d' key 0)"
    by (rule passes_weaken [OF record_metric_columns_passes [OF nm]]) (use inv in blast)
qed

lemma record_row_passes:
  fixes st :: "'w run_state"
  assumes crit: "attr_name criterion = Inr cname"
    and ms: "get_metrics th = Inr ms"
    and ms_ok: "\<forall>m \<in> set ms. \<exists>nm. attr_name m = Inr nm"
    and names: "set (result_names th) = insert cname {nm. \<exists>m \<in> set ms. attr_name m = Inr nm}"
    and k: "fst k_seed < length (fitting_times st)"
    and ready: "\<forall>nm \<in> set (result_names th).
                  has_at_least (train_results st) nm (Suc (fst k_seed))
                  \<and> has_at_least (val_results st) nm (Suc (fst k_seed))"
    and table: "table_ready args d"
  shows "passes (record_row args th criterion st k_seed d) (table_ready args)"
proof -
  from table have seed: "has_at_least d ''seed'' 0" and time: "has_at_least d ''time'' 0"
    and loss: "save_loss_values args \<Longrightarrow> has_at_least d ''train_loss'' 0 \<and> has_at_least d ''val_loss'' 0"
    by (simp_all add: table_ready_def)
  from ready names have c: "has_at_least (train_results st) cname (Suc (fst k_seed))"
    "has_at_least (val_results st) cname (Suc (fst k_seed))" by simp_all
  from results_value_ok [OF c(1)] results_value_ok [OF c(2)] obtain v1 v2 where
    v: "results_value (train_results st) cname (fst k_seed) = Inr v1"
       "results_value (val_results st) cname (fst k_seed) = Inr v2" by blast
  have pre: "\<forall>m \<in> set ms. \<exists>nm. attr_name m = Inr nm
             \<and> has_at_least (train_results st) nm (Suc (fst k_seed))
             \<and> has_at_least (val_results st) nm (Suc (fst k_seed))"
  proof
    fix m assume m: "m \<in> set ms"
    with ms_ok obtain nm where nm: "attr_name m = Inr nm" by blast
    with m names have "nm \<in> set (result_names th)" by auto
    with ready nm show "\<exists>nm. attr_name m = Inr nm
             \<and> has_at_least (train_results st) nm (Suc (fst k_seed))
             \<and> has_at_least (val_results st) nm (Suc (fst k_seed))" by blast
  qed
  have mono: "\<And>d'. (\<forall>key. has_at_least d key 0 \<longrightarrow> has_at_least d' key 0) \<Longrightarrow> table_ready args d'"
    using table by (simp add: table_ready_def)
  show ?thesis
    unfolding record_row_def
    apply (rule passes_bind [OF passes_append [OF seed refl]])
    apply (simp only: py_index_ok [OF k] sum.case)
    subgoal premises p1 for d1
    proof -
      from p1 have m1: "\<And>key. has_at_least d key 0 \<Longrightarrow> has_at_least d1 key 0" by blast
      show ?thesis
        apply (rule passes_bind [OF passes_append [OF m1 [OF time] refl]])
        subgoal premises p2 for d2
        proof -
          from p2 m1 have m2: "\<And>key. has_at_least d key 0 \<Longrightarrow> has_at_least d2 key 0" by blast
          have losses: "passes (if save_loss_values args then
              (case list_append_at d2 ''train_loss''
                      (case attr_name criterion of
                         Inl e \<Rightarrow> Inl e
                       | Inr cname \<Rightarrow> results_value (train_results st) cname (fst k_seed)) of
                 Inl e \<Rightarrow> Inl e
               | Inr d3 \<Rightarrow>
                   list_append_at d3 ''val_loss''
                     (case attr_name criterion of
                        Inl e \<Rightarrow> Inl e
                      | Inr cname \<Rightarrow> results_value (val_results st) cname (fst k_seed)))
            else Inr d2) (\<lambda>d4. \<forall>key. has_at_least d key 0 \<longrightarrow> has_at_least d4 key 0)"
          proof (cases "save_loss_values args")
            case False
            with m2 show ?thesis by (simp add: passes_def)
          next
            case True
            from loss [OF True] m2 have l2: "has_at_least d2 ''train_loss'' 0" "has_at_least d2 ''val_loss'' 0"
              by blast+
            show ?thesis
              apply (simp only: True if_True crit sum.case v)
              apply (rule passes_bind [OF passes_append [OF l2(1) refl]])
              subgoal premises p3 for d3
              proof -
                from p3 l2(2) have l3: "has_at_least d3 ''val_loss'' 0" by blast
                from p3 m2 have m3: "\<And>key. has_at_least d key 0 \<Longrightarrow> has_at_least d3 key 0" by blast
                show ?thesis
                  by (rule passes_weaken [OF passes_append [OF l3 refl]]) (use m3 in blast)
              qed
              done
          qed
          show ?thesis
            apply (rule passes_bind [OF losses])
            apply (simp only: ms sum.case)
            subgoal premises p4 for d4
              by (rule passes_weaken [OF metric_columns_loop_passes [OF pre]])
                 (use p4 mono in blast)
            done
        qed
        done
    qed
    done
qed

lemma keys_loop_passes:
  assumes "table_ready args d"
    and "list_all (dict_contains tot) (hyperparameters_key_to_save args)"
  shows "passes (for_each (\<lambda>key d. list_append_at d key (dict_lookup tot key))
                   (hyperparameters_key_to_save args) d)
           (table_ready args)"
proof (rule for_each_passes [where P = "table_ready args"])
  show "table_ready args d" by (rule assms(1))
next
  fix x and t :: "(string, pyval list) dict"
  assume x: "x \<in> set (hyperparameters_key_to_save args)" and t: "table_ready args t"
  from t x have has: "has_at_least t x 0" by (simp add: table_ready_def)
  from assms(2) x have "dict_contains tot x" by (simp add: list_all_iff)
  then obtain v where v: "dict_lookup tot x = Inr v"
    using dict_lookup_contains by blast
  show "passes (list_append_at t x (dict_lookup tot x)) (table_ready args)"
    by (rule passes_weaken [OF passes_append [OF has v]]) (use t table_ready_mono in blast)
qed

lemma dataloader_params_of_passes:
  "passes (dataloader_params_of env tot) (\<lambda>_. True)"
  unfolding dataloader_params_of_def
proof (rule for_each_passes)
  fix x t
  show "passes (case (if dict_contains tot x then dict_lookup tot x
                 else external (get_dataloader_params env x tot)) of
             Inl e \<Rightarrow> Inl e
           | Inr v \<Rightarrow> Inr (dict_set t x v)) (\<lambda>_. True)"
  proof (cases "dict_contains tot x")
    case True
    then obtain v where "dict_lookup tot x = Inr v" using dict_lookup_contains by blast
    with True show ?thesis by (simp add: passes_def)
  next
    case False
    then show ?thesis
      by (cases "get_dataloader_params env x tot") (simp_all add: passes_def external_def)
  qed
qed simp

lemma enumerate_list_index: "x \<in> set (enumerate_list xs) \<Longrightarrow> fst x < length xs"
  by (auto simp: enumerate_list_def in_set_zip)

lemma combination_body_passes:
  fixes ts :: "'w table_state"
  assumes wf: "well_formed_combination (hyperparameters_key_to_save args) (th, mh)"
    and fit_ok: "fit_results_complete env th"
    and seeds: "seeds args = Some ss"
    and table: "table_ready args (fst ts)"
    and wandb_ok: "well_formed_wandb_params (wandb_params args)"
  shows "passes (combination_body env args ss (n, th, mh) ts) (\<lambda>ts'. table_ready args (fst ts'))"
proof -
  from wf have wft: "well_formed_training th"
    and keys: "list_all (dict_contains (dict_merge th mh)) (hyperparameters_key_to_save args)"
    by (simp_all add: well_formed_combination_def)
  from well_formed_training_criterion [OF wft] obtain c0 cname where
    crit: "dict_get th ''criterion'' = Some c0" and cname: "attr_name c0 = Inr cname" by blast
  from crit have lookup: "dict_lookup th ''criterion'' = Inr c0" by (simp add: dict_lookup_def)
  from wft obtain idx where idx: "history_index th = Inr idx"
    by (auto simp: well_formed_training_def dest: not_isl_Inr)
  from wft have "dict_contains th ''batch_size''" by (simp add: well_formed_training_def)
  then have pop: "dict_pop th ''batch_size'' = Inr (filter (\<lambda>kv. fst kv \<noteq> ''batch_size'') th)"
    by (auto simp: dict_pop_def dict_contains_def)
  from well_formed_training_metrics [OF wft] obtain ms where ms: "get_metrics th = Inr ms"
    and ms_ok: "\<forall>m \<in> set ms. \<exists>nm. attr_name m = Inr nm" by blast
  note names = result_names_set [OF crit cname ms]
  have c0_has: "has_at_least (dict_set ([] :: (string, pyval list) dict) cname []) cname 0"
    by (rule has_at_least_dict_set)
  show ?thesis
    unfolding combination_body_def Let_def
    apply (simp only: fst_conv snd_conv lookup idx pop cname ms seeds sum.case option.case)
    apply (rule passes_bind [OF dataloader_params_of_passes])
    apply (rule passes_bind [OF passes_external])
    apply (rule passes_bind [OF passes_external])
    apply (rule passes_bind [OF empty_results_passes [OF ms_ok]])
    subgoal premises p for params train_loader val_loader r
    proof -
      from p c0_has have r_c: "has_at_least (fst r) cname 0" "has_at_least (snd r) cname 0"
        by simp_all
      from p have r_m: "\<And>m nm. m \<in> set ms \<Longrightarrow> attr_name m = Inr nm \<Longrightarrow>
          has_at_least (fst r) nm 0 \<and> has_at_least (snd r) nm 0" by blast
      let ?st0 = "\<lparr>train_results = fst r, val_results = snd r, fitting_times = [],
              run_idx = fst (snd ts), world = warn_wandb (wandb_params args) th (snd (snd ts))\<rparr>"
      have ready0: "results_ready (result_names th) ?st0"
        unfolding results_ready_def names using r_c r_m by auto
      show ?thesis
        apply (rule passes_bind [OF seeds_loop_passes [OF wf fit_ok crit idx ready0 wandb_ok]])
        subgoal premises q for st
        proof -
          from q have ready: "results_ready (result_names th) st"
            and len: "length (fitting_times st) = length ss"
            by (simp_all add: enumerate_list_def)
          have rows: "passes (for_each (record_row args th c0 st) (enumerate_list ss) d1) (table_ready args)"
            if d1: "table_ready args d1" for d1
          proof (rule for_each_passes [where P = "table_ready args"])
            show "table_ready args d1" by (rule d1)
          next
            fix x and t :: "(string, pyval list) dict"
            assume x: "x \<in> set (enumerate_list ss)" and t: "table_ready args t"
            from enumerate_list_index [OF x] len have k: "fst x < length (fitting_times st)" by simp
            have "\<forall>nm \<in> set (result_names th).
                  has_at_least (train_results st) nm (Suc (fst x))
                  \<and> has_at_least (val_results st) nm (Suc (fst x))"
              using ready k by (auto simp: results_ready_def intro: has_at_least_le)
            from record_row_passes [OF cname ms ms_ok names k this t]
            show "passes (record_row args th c0 st x t) (table_ready args)" .
          qed
          show ?thesis
            apply (rule passes_bind [OF keys_loop_passes [OF table keys]])
            subgoal premises k for d1
              apply (rule passes_bind [OF rows [OF k(2)]])
              apply (rule passes_Inr)
              apply simp
              done
            done
        qed
        done
    qed
    done
qed

lemma initial_dataframe_dict_ready: "table_ready args (initial_dataframe_dict args)"
proof -
  have "has_at_least (initial_dataframe_dict args) k 0"
    if "k \<in> set (dict_keys (initial_dataframe_dict args))" for k
    using that by (simp add: has_at_least_contains dict_contains_keys)
  then show ?thesis
    by (simp add: table_ready_def initial_dataframe_dict_keys)
qed

lemma build_table_passes:
  assumes "seeds args = Some ss" and "well_formed_input env args"
  shows "passes (build_table env args w) (\<lambda>ts. table_ready args (fst ts))"
proof -
  from assms(2) have wandb_ok: "well_formed_wandb_params (wandb_params args)"
    and items: "\<forall>item \<in> set (iterator args).
           well_formed_combination (hyperparameters_key_to_save args) (snd item)
           \<and> fit_results_complete env (fst (snd item))"
    by (simp_all add: well_formed_input_def)
  have "passes (for_each (combination_body env args ss) (iterator args)
           (initial_dataframe_dict args, 0, w)) (\<lambda>ts'. table_ready args (fst ts'))"
  proof (rule for_each_passes [where P = "\<lambda>ts'. table_ready args (fst ts')"])
    show "table_ready args (fst (initial_dataframe_dict args, 0 :: nat, w))"
      by (simp add: initial_dataframe_dict_ready)
  next
    fix x :: "nat \<times> hyperparameters \<times> hyperparameters" and t :: "'e table_state"
    assume x: "x \<in> set (iterator args)" and t: "table_ready args (fst t)"
    obtain n th mh where xeq: "x = (n, th, mh)" by (cases x) auto
    with items x have "well_formed_combination (hyperparameters_key_to_save args) (th, mh)"
      "fit_results_complete env th" by auto
    from combination_body_passes [OF this assms(1) t wandb_ok] xeq
    show "passes (combination_body env args ss x t) (\<lambda>ts'. table_ready args (fst ts'))" by simp
  qed
  then show ?thesis
    using assms(1) by (simp add: build_table_def)
qed

subsection \<open>The lengths of the columns\<close>

text \<open>
  Each loop of \<open>collect_results\<close> that ends normally extends the columns it writes by
  one value and leaves every other column as it was. With one seed, distinct keys to save
  that are no other column, and the same metrics in every combination, each combination
  adds one value to every column of the table.
\<close>

lemma distinct_dict_set:
  "distinct (dict_keys d) \<Longrightarrow> distinct (dict_keys (dict_set d k v))"
proof (induction d)
  case Nil
  then show ?case by (simp add: dict_keys_def)
next
  case (Cons a d)
  have "set (dict_keys (dict_set d k v)) = insert k (set (dict_keys d))"
    by (rule dict_keys_dict_set)
  then have "fst ` set (dict_set d k v) = insert k (fst ` set d)"
    by (simp add: dict_keys_def)
  with Cons show ?case
    by (cases a) (auto simp: dict_keys_def)
qed

lemma lengths_are_cong:
  assumes "lengths_are d f" and "\<And>k. k \<in> set (dict_keys d) \<Longrightarrow> f k = g k"
  shows "lengths_are d g"
  using assms by (auto simp: lengths_are_def dest: dict_get_Some_keys)

lemma lengths_are_new:
  assumes "lengths_are d f"
  shows "lengths_are (dict_set d k []) (f(k := 0))"
  using assms by (auto simp: lengths_are_def distinct_dict_set dict_get_dict_set)

lemma lengths_are_append:
  assumes "list_append_at d k arg = Inr d'" and "lengths_are d f"
  shows "lengths_are d' (f(k := Suc (f k)))"
  using assms
  by (auto elim!: list_append_at_Inr simp: lengths_are_def distinct_dict_set dict_get_dict_set)

lemma keys_loop_lengths:
  assumes "for_each (\<lambda>key d. list_append_at d key (dict_lookup tot key)) ks d = Inr d'"
    and "distinct ks" and "lengths_are d f"
  shows "lengths_are d' (\<lambda>k. if k \<in> set ks then Suc (f k) else f k)
       \<and> set (dict_keys d') = set (dict_keys d)"
  using assms
proof (induction ks arbitrary: d f)
  case Nil
  then show ?case by simp
next
  case (Cons key ks)
  from Cons.prems(1) obtain d1 where d1: "list_append_at d key (dict_lookup tot key) = Inr d1"
    and rest: "for_each (\<lambda>key d. list_append_at d key (dict_lookup tot key)) ks d1 = Inr d'"
    by (auto split: sum.splits)
  from Cons.prems(2) have dist: "distinct ks" and fresh: "key \<notin> set ks" by simp_all
  note l1 = lengths_are_append [OF d1 Cons.prems(3)]
  from Cons.IH [OF rest dist l1]
  have l': "lengths_are d' (\<lambda>k. if k \<in> set ks then Suc ((f(key := Suc (f key))) k)
                              else (f(key := Suc (f key))) k)"
    and k': "set (dict_keys d') = set (dict_keys d1)" by simp_all
  have "(\<lambda>k. if k \<in> set ks then Suc ((f(key := Suc (f key))) k) else (f(key := Suc (f key))) k)
        = (\<lambda>k. if k \<in> set (key # ks) then Suc (f k) else f k)"
    using fresh by auto
  with l' k' list_append_at_keys [OF d1] show ?case by simp
qed

lemma train_neq_val: "nm @ ''_train'' \<noteq> nm' @ ''_val''"
  using arg_cong [of "nm @ ''_train''" "nm' @ ''_val''" rev] by auto

lemma suffix_not_reserved:
  "nm @ ''_train'' \<noteq> ''seed''" "nm @ ''_val'' \<noteq> ''seed''"
  "nm @ ''_train'' \<noteq> ''time''" "nm @ ''_val'' \<noteq> ''time''"
  "nm @ ''_train'' \<noteq> ''train_loss''" "nm @ ''_val'' \<noteq> ''train_loss''"
  "nm @ ''_train'' \<noteq> ''val_loss''" "nm @ ''_val'' \<noteq> ''val_loss''"
  using arg_cong [of "nm @ ''_train''" _ rev] arg_cong [of "nm @ ''_val''" _ rev]
  by auto

lemma record_metric_columns_lengths:
  assumes "record_metric_columns st j m d = Inr d'"
    and "lengths_are d f"
    and "\<And>nm. attr_name m = Inr nm \<Longrightarrow>
           (nm @ ''_train'' \<notin> set (dict_keys d) \<longrightarrow> f (nm @ ''_train'') = 0)
           \<and> (nm @ ''_val'' \<notin> set (dict_keys d) \<longrightarrow> f (nm @ ''_val'') = 0)"
  shows "\<exists>nm. attr_name m = Inr nm
           \<and> lengths_are d' (\<lambda>k. if k = nm @ ''_train'' \<or> k = nm @ ''_val'' then Suc (f k) else f k)
           \<and> set (dict_keys d') = set (dict_keys d) \<union> {nm @ ''_train'', nm @ ''_val''}"
proof -
  from assms(1) obtain nm where nm: "attr_name m = Inr nm"
    by (auto simp: record_metric_columns_def split: sum.splits)
  let ?t = "nm @ ''_train''" and ?v = "nm @ ''_val''"
  define d0 where "d0 = (if \<not> dict_contains d ?t then dict_set d ?t [] else d)"
  from assms(1) nm obtain d1 where
    d1: "list_append_at d0 ?t (results_value (train_results st) nm j) = Inr d1"
    by (auto simp: record_metric_columns_def d0_def split: sum.splits)
  define d2 where "d2 = (if \<not> dict_contains d1 ?v then dict_set d1 ?v [] else d1)"
  from assms(1) nm d1 have
    d': "list_append_at d2 ?v (results_value (val_results st) nm j) = Inr d'"
    by (auto simp: record_metric_columns_def d0_def d2_def split: sum.splits)
  from assms(3) [OF nm] have zero_t: "?t \<notin> set (dict_keys d) \<Longrightarrow> f ?t = 0"
    and zero_v: "?v \<notin> set (dict_keys d) \<Longrightarrow> f ?v = 0" by simp_all
  have l0: "lengths_are d0 f"
  proof (cases "dict_contains d ?t")
    case True
    then show ?thesis using assms(2) by (simp add: d0_def)
  next
    case False
    then have "f ?t = 0" using zero_t by (simp add: dict_contains_keys)
    then have "f(?t := 0) = f" by auto
    with lengths_are_new [OF assms(2), of ?t] False show ?thesis by (simp add: d0_def)
  qed
  have k0: "set (dict_keys d0) = set (dict_keys d) \<union> {?t}"
    by (auto simp: d0_def dict_keys_dict_set dict_contains_keys)
  let ?f1 = "f(?t := Suc (f ?t))"
  note l1 = lengths_are_append [OF d1 l0]
  have k1: "set (dict_keys d1) = set (dict_keys d) \<union> {?t}"
    using list_append_at_keys [OF d1] k0 by simp
  have l2: "lengths_are d2 ?f1"
  proof (cases "dict_contains d1 ?v")
    case True
    then show ?thesis using l1 by (simp add: d2_def)
  next
    case False
    then have "?v \<notin> set (dict_keys d)" using k1 by (simp add: dict_contains_keys)
    then have "f ?v = 0" by (rule zero_v)
    then have "?f1(?v := 0) = ?f1" using train_neq_val [of nm nm] by auto
    with lengths_are_new [OF l1, of ?v] False show ?thesis by (simp add: d2_def)
  qed
  have k2: "set (dict_keys d2) = set (dict_keys d) \<union> {?t, ?v}"
    using k1 by (auto simp: d2_def dict_keys_dict_set dict_contains_keys)
  note l3 = lengths_are_append [OF d' l2]
  have k3: "set (dict_keys d') = set (dict_keys d) \<union> {?t, ?v}"
    using list_append_at_keys [OF d'] k2 by simp
  have "?f1(?v := Suc (?f1 ?v)) = (\<lambda>k. if k = ?t \<or> k = ?v then Suc (f k) else f k)"
    using train_neq_val [of nm nm] by auto
  with l3 k3 nm show ?thesis by auto
qed

lemma cols_of_iff:
  "k \<in> set (cols_of ns) \<longleftrightarrow> (\<exists>nm \<in> set ns. k = nm @ ''_train'' \<or> k = nm @ ''_val'')"
  by (auto simp: cols_of_def)

lemma cols_of_fresh:
  assumes "nm \<notin> set ns"
  shows "nm @ ''_train'' \<notin> set (cols_of ns)" and "nm @ ''_val'' \<notin> set (cols_of ns)"
  using assms train_neq_val [of nm] train_neq_val [of _ nm]
  by (auto simp: cols_of_iff)

lemma metric_columns_cols_of:
  "get_metrics th = Inr ms \<Longrightarrow> metric_columns th = cols_of (names_of ms)"
  by (simp add: metric_columns_def metric_names_def cols_of_def names_of_def)

lemma metric_names_names_of:
  "get_metrics th = Inr ms \<Longrightarrow> metric_names th = names_of ms"
  by (simp add: metric_names_def names_of_def)

lemma metrics_loop_lengths:
  assumes "for_each (record_metric_columns st j) ms d = Inr d'"
    and "lengths_are d f"
    and "distinct (names_of ms)"
    and "\<And>k. k \<in> set (cols_of (names_of ms)) \<Longrightarrow> k \<notin> set (dict_keys d) \<Longrightarrow> f k = 0"
  shows "lengths_are d' (\<lambda>k. if k \<in> set (cols_of (names_of ms)) then Suc (f k) else f k)
       \<and> set (dict_keys d') = set (dict_keys d) \<union> set (cols_of (names_of ms))"
  using assms
proof (induction ms arbitrary: d f)
  case Nil
  then show ?case by (simp add: names_of_def cols_of_def)
next
  case (Cons m ms)
  from Cons.prems(1) obtain d1 where d1: "record_metric_columns st j m d = Inr d1"
    and rest: "for_each (record_metric_columns st j) ms d1 = Inr d'"
    by (auto split: sum.splits)
  from d1 obtain nm where nm: "attr_name m = Inr nm"
    by (auto simp: record_metric_columns_def split: sum.splits)
  then have names: "names_of (m # ms) = nm # names_of ms"
    by (simp add: names_of_def)
  with Cons.prems(3) have fresh: "nm \<notin> set (names_of ms)" and dist: "distinct (names_of ms)"
    by simp_all
  let ?t = "nm @ ''_train''" and ?v = "nm @ ''_val''"
  have cols: "set (cols_of (names_of (m # ms))) = {?t, ?v} \<union> set (cols_of (names_of ms))"
    by (auto simp: names cols_of_def)
  let ?f1 = "\<lambda>k. if k = ?t \<or> k = ?v then Suc (f k) else f k"
  have pre: "(?t \<notin> set (dict_keys d) \<longrightarrow> f ?t = 0) \<and> (?v \<notin> set (dict_keys d) \<longrightarrow> f ?v = 0)"
    using Cons.prems(4) cols by auto
  from record_metric_columns_lengths [OF d1 Cons.prems(2)] nm pre
  have l1: "lengths_are d1 ?f1"
    and k1: "set (dict_keys d1) = set (dict_keys d) \<union> {?t, ?v}"
    by auto
  have pre1: "?f1 k = 0" if "k \<in> set (cols_of (names_of ms))" "k \<notin> set (dict_keys d1)" for k
  proof -
    from that(1) cols_of_fresh [OF fresh] have "k \<noteq> ?t" "k \<noteq> ?v" by auto
    moreover from that k1 cols have "f k = 0" using Cons.prems(4) by auto
    ultimately show ?thesis by simp
  qed
  from Cons.IH [OF rest l1 dist pre1]
  have l': "lengths_are d' (\<lambda>k. if k \<in> set (cols_of (names_of ms)) then Suc (?f1 k) else ?f1 k)"
    and k': "set (dict_keys d') = set (dict_keys d1) \<union> set (cols_of (names_of ms))"
    by simp_all
  have "(\<lambda>k. if k \<in> set (cols_of (names_of ms)) then Suc (?f1 k) else ?f1 k)
        = (\<lambda>k. if k \<in> set (cols_of (names_of (m # ms))) then Suc (f k) else f k)"
    using cols_of_fresh [OF fresh] by (auto simp: cols)
  with l' k' k1 cols show ?case by auto
qed

lemma cols_of_not_reserved:
  "k \<in> set (cols_of ns) \<Longrightarrow> k \<notin> set (reserved_columns args)"
  using suffix_not_reserved by (auto simp: cols_of_iff reserved_columns_def)

lemma record_row_lengths:
  fixes st :: "'w run_state"
  assumes "record_row args th criterion st k_seed d = Inr d'"
    and "lengths_are d f"
    and "distinct (metric_names th)"
    and "\<And>k. k \<in> set (metric_columns th) \<Longrightarrow> k \<notin> set (dict_keys d) \<Longrightarrow> f k = 0"
  shows "lengths_are d' (\<lambda>k. if k \<in> set (reserved_columns args) \<union> set (metric_columns th)
                             then Suc (f k) else f k)
       \<and> set (dict_keys d') = set (dict_keys d) \<union> set (metric_columns th)"
proof -
  from assms(1) obtain d1 where d1: "list_append_at d ''seed'' (Inr (PyInt (snd k_seed))) = Inr d1"
    by (auto simp: record_row_def split: sum.splits)
  from assms(1) d1 obtain d2 where d2: "list_append_at d1 ''time''
             (case py_index (fitting_times st) (int (fst k_seed)) of
                Inl e \<Rightarrow> Inl e
              | Inr t \<Rightarrow> Inr (PyFloat t)) = Inr d2"
    by (auto simp: record_row_def split: sum.splits)
  from assms(1) d1 d2 obtain d4 where d4: "(if save_loss_values args then
              (case list_append_at d2 ''train_loss''
                      (case attr_name criterion of
                         Inl e \<Rightarrow> Inl e
                       | Inr cname \<Rightarrow> results_value (train_results st) cname (fst k_seed)) of
                 Inl e \<Rightarrow> Inl e
               | Inr d3 \<Rightarrow>
                   list_append_at d3 ''val_loss''
                     (case attr_name criterion of
                        Inl e \<Rightarrow> Inl e
                      | Inr cname \<Rightarrow> results_value (val_results st) cname (fst k_seed)))
            else Inr d2) = Inr d4"
    by (auto simp: record_row_def split: sum.splits)
  from assms(1) d1 d2 d4 obtain ms where ms: "get_metrics th = Inr ms"
    and loop: "for_each (record_metric_columns st (fst k_seed)) ms d4 = Inr d'"
    by (auto simp: record_row_def split: sum.splits)
  let ?f2 = "f(''seed'' := Suc (f ''seed''), ''time'' := Suc (f ''time''))"
  have l2: "lengths_are d2 ?f2"
    using lengths_are_append [OF d2 lengths_are_append [OF d1 assms(2)]] by simp
  have k2: "set (dict_keys d2) = set (dict_keys d)"
    using list_append_at_keys [OF d1] list_append_at_keys [OF d2] by simp
  let ?f4 = "\<lambda>k. if k \<in> set (reserved_columns args) then Suc (f k) else f k"
  have l4: "lengths_are d4 ?f4 \<and> set (dict_keys d4) = set (dict_keys d)"
  proof (cases "save_loss_values args")
    case False
    with d4 have "d4 = d2" by simp
    moreover have "?f2 = ?f4" using False by (auto simp: reserved_columns_def)
    ultimately show ?thesis using l2 k2 by simp
  next
    case True
    with d4 obtain d3 where d3: "list_append_at d2 ''train_loss''
                      (case attr_name criterion of
                         Inl e \<Rightarrow> Inl e
                       | Inr cname \<Rightarrow> results_value (train_results st) cname (fst k_seed)) = Inr d3"
      and d4': "list_append_at d3 ''val_loss''
                     (case attr_name criterion of
                        Inl e \<Rightarrow> Inl e
                      | Inr cname \<Rightarrow> results_value (val_results st) cname (fst k_seed)) = Inr d4"
      by (auto split: sum.splits)
    let ?f3 = "?f2(''train_loss'' := Suc (?f2 ''train_loss''))"
    have "lengths_are d4 (?f3(''val_loss'' := Suc (?f3 ''val_loss'')))"
      using lengths_are_append [OF d4' lengths_are_append [OF d3 l2]] by simp
    moreover have "?f3(''val_loss'' := Suc (?f3 ''val_loss'')) = ?f4"
      using True by (auto simp: reserved_columns_def)
    moreover have "set (dict_keys d4) = set (dict_keys d)"
      using list_append_at_keys [OF d3] list_append_at_keys [OF d4'] k2 by simp
    ultimately show ?thesis by simp
  qed
  note mc = metric_columns_cols_of [OF ms]
  have dist: "distinct (names_of ms)"
    using assms(3) metric_names_names_of [OF ms] by simp
  have pre: "?f4 k = 0" if "k \<in> set (cols_of (names_of ms))" "k \<notin> set (dict_keys d4)" for k
  proof -
    from that(1) have "k \<notin> set (reserved_columns args)" by (rule cols_of_not_reserved)
    moreover from that l4 mc have "f k = 0" using assms(4) by simp
    ultimately show ?thesis by simp
  qed
  from l4 have l4a: "lengths_are d4 ?f4" and k4: "set (dict_keys d4) = set (dict_keys d)"
    by simp_all
  from metrics_loop_lengths [OF loop l4a dist pre] k4
  have l': "lengths_are d' (\<lambda>k. if k \<in> set (cols_of (names_of ms)) then Suc (?f4 k) else ?f4 k)"
    and k': "set (dict_keys d') = set (dict_keys d) \<union> set (cols_of (names_of ms))"
    by simp_all
  have "(\<lambda>k. if k \<in> set (cols_of (names_of ms)) then Suc (?f4 k) else ?f4 k)
        = (\<lambda>k. if k \<in> set (reserved_columns args) \<union> set (metric_columns th)
                then Suc (f k) else f k)"
    using cols_of_not_reserved [of _ "names_of ms" args] by (auto simp: mc)
  with l' k' mc show ?thesis by simp
qed

lemma rows_loop_lengths:
  fixes st :: "'w run_state"
  assumes "for_each (record_row args th criterion st) xs d = Inr d'"
    and "lengths_are d f"
    and "distinct (metric_names th)"
    and "\<And>k. xs \<noteq> [] \<Longrightarrow> k \<in> set (metric_columns th) \<Longrightarrow> k \<notin> set (dict_keys d) \<Longrightarrow> f k = 0"
  shows "lengths_are d' (\<lambda>k. if k \<in> set (reserved_columns args) \<union> set (metric_columns th)
                             then f k + length xs else f k)
       \<and> set (dict_keys d') = set (dict_keys d) \<union> (if xs = [] then {} else set (metric_columns th))"
  using assms(1,2,4)
proof (induction xs arbitrary: d f)
  case Nil
  then show ?case by (simp cong: if_cong)
next
  case (Cons x xs)
  from Cons.prems(1) obtain d1 where d1: "record_row args th criterion st x d = Inr d1"
    and rest: "for_each (record_row args th criterion st) xs d1 = Inr d'"
    by (auto split: sum.splits)
  let ?touched = "set (reserved_columns args) \<union> set (metric_columns th)"
  let ?f1 = "\<lambda>k. if k \<in> ?touched then Suc (f k) else f k"
  have pre: "f k = 0" if "k \<in> set (metric_columns th)" "k \<notin> set (dict_keys d)" for k
    using Cons.prems(3) [of k] that by simp
  from record_row_lengths [OF d1 Cons.prems(2) assms(3) pre]
  have l1: "lengths_are d1 ?f1"
    and k1: "set (dict_keys d1) = set (dict_keys d) \<union> set (metric_columns th)"
    by simp_all
  have pre1: "?f1 k = 0" if "xs \<noteq> []" "k \<in> set (metric_columns th)" "k \<notin> set (dict_keys d1)" for k
    using that k1 by simp
  from Cons.IH [OF rest l1 pre1]
  have l': "lengths_are d' (\<lambda>k. if k \<in> ?touched then ?f1 k + length xs else ?f1 k)"
    and k': "set (dict_keys d') = set (dict_keys d1)
               \<union> (if xs = [] then {} else set (metric_columns th))"
    by simp_all
  have "(\<lambda>k. if k \<in> ?touched then ?f1 k + length xs else ?f1 k)
        = (\<lambda>k. if k \<in> ?touched then f k + length (x # xs) else f k)"
    by auto
  with l' k' k1 show ?case by auto
qed

lemma combination_body_aligned:
  fixes ts :: "'w table_state"
  assumes body: "combination_body env args ss item ts = Inr ts'"
    and seeds: "seeds args = Some ss"
    and one: "length ss = 1 \<or> hyperparameters_key_to_save args = []"
    and dist: "distinct (hyperparameters_key_to_save args)"
    and not_reserved: "\<And>k. k \<in> set (hyperparameters_key_to_save args) \<Longrightarrow> k \<notin> set (reserved_columns args)"
    and not_metric: "\<And>k. k \<in> set (hyperparameters_key_to_save args) \<Longrightarrow> k \<notin> mcols"
    and mcols: "set (metric_columns (fst (snd item))) = mcols"
    and names: "distinct (metric_names (fst (snd item)))"
    and inv: "table_aligned args mcols (length ss) n (fst ts)"
  shows "table_aligned args mcols (length ss) (Suc n) (fst ts')"
proof -
  let ?keys = "hyperparameters_key_to_save args"
  let ?r = "length ss"
  let ?th = "fst (snd item)"
  from combination_body_Inr [OF body seeds] obtain criterion and st :: "'w run_state" and d1 where
    keys: "for_each (\<lambda>key d. list_append_at d key
                  (dict_lookup (dict_merge (fst (snd item)) (snd (snd item))) key))
             ?keys (fst ts) = Inr d1"
    and rows: "for_each (record_row args ?th criterion st) (enumerate_list ss) d1 = Inr (fst ts')"
    by blast
  from inv have l0: "lengths_are (fst ts) (\<lambda>_. n * ?r)"
    and k0: "set (dict_keys (fst ts)) = set ?keys \<union> set (reserved_columns args)
               \<union> (if 0 < n * ?r then mcols else {})"
    by (simp_all add: table_aligned_def)
  let ?g = "\<lambda>k. if k \<in> set ?keys then Suc (n * ?r) else n * ?r"
  from keys_loop_lengths [OF keys dist l0]
  have l1: "lengths_are d1 ?g" and k1: "set (dict_keys d1) = set (dict_keys (fst ts))"
    by simp_all
  have len: "length (enumerate_list ss) = ?r" by (simp add: enumerate_list_def)
  have pre: "?g k = 0"
    if "enumerate_list ss \<noteq> []" "k \<in> set (metric_columns ?th)" "k \<notin> set (dict_keys d1)" for k
  proof -
    from that(2) mcols have km: "k \<in> mcols" by simp
    with not_metric have "k \<notin> set ?keys" by blast
    moreover from that(3) k1 k0 km have "\<not> 0 < n * ?r" by auto
    ultimately show ?thesis by simp
  qed
  let ?touched = "set (reserved_columns args) \<union> set (metric_columns ?th)"
  from rows_loop_lengths [OF rows l1 names pre, unfolded len]
  have l2: "lengths_are (fst ts') (\<lambda>k. if k \<in> ?touched then ?g k + ?r else ?g k)"
    and k2: "set (dict_keys (fst ts')) = set (dict_keys d1)
               \<union> (if enumerate_list ss = [] then {} else set (metric_columns ?th))"
    by simp_all
  have empty: "enumerate_list ss = [] \<longleftrightarrow> ?r = 0" using len by (metis length_0_conv)
  have keyset: "set (dict_keys (fst ts')) = set ?keys \<union> set (reserved_columns args)
               \<union> (if 0 < Suc n * ?r then mcols else {})"
    using k2 k1 k0 mcols empty by auto
  have "lengths_are (fst ts') (\<lambda>_. Suc n * ?r)"
  proof (rule lengths_are_cong [OF l2])
    fix k assume "k \<in> set (dict_keys (fst ts'))"
    with keyset have cases: "k \<in> set ?keys \<or> k \<in> set (reserved_columns args) \<or> k \<in> mcols"
      by (auto split: if_splits)
    show "(if k \<in> ?touched then ?g k + ?r else ?g k) = Suc n * ?r"
    proof (cases "k \<in> set ?keys")
      case True
      with not_reserved not_metric mcols have "k \<notin> ?touched" by auto
      moreover from True one have "?r = 1" by auto
      ultimately show ?thesis using True by simp
    next
      case False
      with cases mcols have "k \<in> ?touched" by auto
      with False show ?thesis by simp
    qed
  qed
  with keyset show ?thesis by (simp add: table_aligned_def)
qed

lemma combinations_loop_aligned:
  fixes ts :: "'w table_state"
  assumes "for_each (combination_body env args ss) its ts = Inr ts'"
    and seeds: "seeds args = Some ss"
    and one: "length ss = 1 \<or> hyperparameters_key_to_save args = []"
    and dist: "distinct (hyperparameters_key_to_save args)"
    and not_reserved: "\<And>k. k \<in> set (hyperparameters_key_to_save args) \<Longrightarrow> k \<notin> set (reserved_columns args)"
    and not_metric: "\<And>k. k \<in> set (hyperparameters_key_to_save args) \<Longrightarrow> k \<notin> mcols"
    and items: "\<And>item. item \<in> set its \<Longrightarrow>
                  set (metric_columns (fst (snd item))) = mcols
                  \<and> distinct (metric_names (fst (snd item)))"
    and inv: "table_aligned args mcols (length ss) n (fst ts)"
  shows "table_aligned args mcols (length ss) (n + length its) (fst ts')"
  using assms(1) items inv
proof (induction its arbitrary: ts n)
  case Nil
  then show ?case by simp
next
  case (Cons item its)
  from Cons.prems(1) obtain t where t: "combination_body env args ss item ts = Inr t"
    and rest: "for_each (combination_body env args ss) its t = Inr ts'"
    by (auto split: sum.splits)
  from Cons.prems(2) [of item] have it: "set (metric_columns (fst (snd item))) = mcols"
    "distinct (metric_names (fst (snd item)))" by simp_all
  note step = combination_body_aligned [OF t seeds one dist not_reserved not_metric it Cons.prems(3)]
  have "table_aligned args mcols (length ss) (Suc n + length its) (fst ts')"
    by (rule Cons.IH [OF rest _ step]) (use Cons.prems(2) in simp)
  then show ?case by simp
qed

lemma lengths_are_Nil: "lengths_are [] f"
  by (simp add: lengths_are_def dict_keys_def)

lemma lengths_are_empty_column:
  assumes "lengths_are d (\<lambda>_. 0)"
  shows "lengths_are (dict_set d k []) (\<lambda>_. 0)"
proof -
  have "(\<lambda>_. 0 :: nat)(k := 0) = (\<lambda>_. 0)" by auto
  with lengths_are_new [OF assms, of k] show ?thesis by simp
qed

lemma lengths_are_empty_columns:
  "lengths_are d (\<lambda>_. 0) \<Longrightarrow> lengths_are (fold (\<lambda>key d. dict_set d key []) ks d) (\<lambda>_. 0)"
  by (induction ks arbitrary: d) (simp_all add: lengths_are_empty_column)

lemma initial_dataframe_dict_aligned:
  "table_aligned args mcols r 0 (initial_dataframe_dict args)"
proof -
  have "lengths_are (initial_dataframe_dict args) (\<lambda>_. 0)"
    by (simp add: initial_dataframe_dict_def Let_def lengths_are_empty_column
          lengths_are_empty_columns lengths_are_Nil)
  moreover have "set (dict_keys (initial_dataframe_dict args)) =
      set (hyperparameters_key_to_save args) \<union> set (reserved_columns args)"
    by (auto simp: initial_dataframe_dict_keys reserved_columns_def)
  ultimately show ?thesis by (simp add: table_aligned_def)
qed

lemma metric_columns_cong:
  "set (metric_names th) = set (metric_names th') \<Longrightarrow>
   set (metric_columns th) = set (metric_columns th')"
  by (simp add: metric_columns_def)

lemma dict_get_distinct:
  "distinct (dict_keys d) \<Longrightarrow> (k, v) \<in> set d \<Longrightarrow> dict_get d k = Some v"
  by (induction d) (force simp: dict_keys_def)+

lemma pd_DataFrame_aligned:
  assumes "table_aligned args mcols r n d"
  shows "\<exists>df. pd_DataFrame astype0 d = Inr df
            \<and> nrows df = n * r
            \<and> set (dict_keys (columns df)) = set (dict_keys d)
            \<and> (\<forall>c \<in> set (columns df). length (snd c) = n * r)"
proof -
  from assms have l: "lengths_are d (\<lambda>_. n * r)"
    and k: "''time'' \<in> set (dict_keys d)"
    by (auto simp: table_aligned_def reserved_columns_def)
  have all: "length (snd c) = n * r" if "c \<in> set d" for c
  proof -
    from that have "(fst c, snd c) \<in> set d" by simp
    with l have "dict_get d (fst c) = Some (snd c)"
      by (auto simp: lengths_are_def intro: dict_get_distinct)
    with l show ?thesis by (simp add: lengths_are_def)
  qed
  from k obtain c cs where d: "d = c # cs" by (cases d) (auto simp: dict_keys_def)
  let ?df = "DataFrame (map (\<lambda>c'. (fst c', map (astype0 (snd c')) (snd c'))) d)"
  have "pd_DataFrame astype0 d = Inr ?df"
    using all d by (auto simp: pd_DataFrame_def list_all_iff)
  moreover have "nrows ?df = n * r"
    using all d by (simp add: nrows_def)
  moreover have "set (dict_keys (columns ?df)) = set (dict_keys d)"
    by (force simp: dict_keys_def)
  moreover have "\<forall>c \<in> set (columns ?df). length (snd c) = n * r"
    using all by auto
  ultimately show ?thesis by blast
qed

lemma aligned_input_seeds:
  "aligned_input args \<Longrightarrow> seeds args = Some ss \<Longrightarrow>
   length ss = 1 \<or> hyperparameters_key_to_save args = []"
  by (simp add: aligned_input_def)

lemma aligned_input_distinct:
  "aligned_input args \<Longrightarrow> distinct (hyperparameters_key_to_save args)"
  by (simp add: aligned_input_def)

lemma aligned_input_not_reserved:
  "aligned_input args \<Longrightarrow> k \<in> set (hyperparameters_key_to_save args) \<Longrightarrow>
   k \<notin> set (reserved_columns args)"
  unfolding aligned_input_def list_all_iff by blast

lemma aligned_input_item:
  assumes "aligned_input args" and "item \<in> set (iterator args)"
  shows "distinct (metric_names (fst (snd item)))"
    and "\<And>k. k \<in> set (hyperparameters_key_to_save args) \<Longrightarrow>
           k \<notin> set (metric_columns (fst (snd item)))"
    and "\<And>item'. item' \<in> set (iterator args) \<Longrightarrow>
           set (metric_names (fst (snd item'))) = set (metric_names (fst (snd item)))"
proof -
  from assms(1) have "\<forall>item \<in> set (iterator args).
       distinct (metric_names (fst (snd item)))
       \<and> (\<forall>key \<in> set (hyperparameters_key_to_save args).
             key \<notin> set (metric_columns (fst (snd item))))
       \<and> (\<forall>item' \<in> set (iterator args).
             set (metric_names (fst (snd item'))) = set (metric_names (fst (snd item))))"
    unfolding aligned_input_def list_all_iff by (elim conjE)
  from bspec [OF this assms(2)]
  show "distinct (metric_names (fst (snd item)))"
    and "\<And>k. k \<in> set (hyperparameters_key_to_save args) \<Longrightarrow>
           k \<notin> set (metric_columns (fst (snd item)))"
    and "\<And>item'. item' \<in> set (iterator args) \<Longrightarrow>
           set (metric_names (fst (snd item'))) = set (metric_names (fst (snd item)))"
    by blast+
qed

lemma build_table_aligned:
  fixes w :: "'w world"
  assumes built: "build_table env args w = Inr ts"
    and seeds: "seeds args = Some ss"
    and al: "aligned_input args"
  shows "table_aligned args (\<Union>item \<in> set (iterator args). set (metric_columns (fst (snd item))))
           (length ss) (length (iterator args)) (fst ts)"
proof -
  define mcols where
    "mcols = (\<Union>item \<in> set (iterator args). set (metric_columns (fst (snd item))))"
  from built seeds have loop: "for_each (combination_body env args ss) (iterator args)
           (initial_dataframe_dict args, 0, w) = Inr ts"
    by (simp add: build_table_def)
  note one = aligned_input_seeds [OF al seeds]
  note dist = aligned_input_distinct [OF al]
  have not_reserved: "k \<notin> set (reserved_columns args)"
    if "k \<in> set (hyperparameters_key_to_save args)" for k
    using aligned_input_not_reserved [OF al that] .
  have not_metric: "k \<notin> mcols" if k: "k \<in> set (hyperparameters_key_to_save args)" for k
  proof
    assume "k \<in> mcols"
    then obtain item where item: "item \<in> set (iterator args)"
      and "k \<in> set (metric_columns (fst (snd item)))"
      unfolding mcols_def by blast
    with aligned_input_item(2) [OF al item k] show False by simp
  qed
  have uniform: "set (metric_columns (fst (snd item))) = mcols
                 \<and> distinct (metric_names (fst (snd item)))"
    if item: "item \<in> set (iterator args)" for item
  proof -
    have same: "set (metric_columns (fst (snd item'))) = set (metric_columns (fst (snd item)))"
      if "item' \<in> set (iterator args)" for item'
      using aligned_input_item(3) [OF al item that] by (rule metric_columns_cong)
    have "mcols = set (metric_columns (fst (snd item)))"
    proof
      show "mcols \<subseteq> set (metric_columns (fst (snd item)))"
        unfolding mcols_def using same by blast
      show "set (metric_columns (fst (snd item))) \<subseteq> mcols"
        unfolding mcols_def using item by blast
    qed
    with aligned_input_item(1) [OF al item] show ?thesis by simp
  qed
  have init: "table_aligned args mcols (length ss) 0
                (fst (initial_dataframe_dict args, 0 :: nat, w))"
    by (simp add: initial_dataframe_dict_aligned)
  have "table_aligned args mcols (length ss) (0 + length (iterator args)) (fst ts)"
    by (rule combinations_loop_aligned [OF loop seeds one dist not_reserved not_metric uniform init])
  then show ?thesis by (simp add: mcols_def)
qed

lemma passes_Inl: "passes (Inl e) Q \<Longrightarrow> \<exists>c. e = External c"
  by (simp add: passes_def)

lemma collect_results_aligned:
  fixes w :: "'w world"
  assumes seeds: "seeds args = Some ss"
    and wf: "well_formed_input env args"
    and al: "aligned_input args"
  shows "(\<exists>c. collect_results env args w = Inl (External c))
       \<or> (\<exists>df w'. collect_results env args w = Inr (df, w')
            \<and> nrows df = length (iterator args) * length ss
            \<and> set (dict_keys (columns df)) =
                set (hyperparameters_key_to_save args) \<union> set (reserved_columns args)
                \<union> (if 0 < length (iterator args) * length ss
                    then (\<Union>item \<in> set (iterator args). set (metric_columns (fst (snd item))))
                    else {})
            \<and> (\<forall>c \<in> set (columns df). length (snd c) = length (iterator args) * length ss))"
proof (cases "build_table env args w")
  case (Inl e)
  from build_table_passes [OF seeds wf, of w] Inl
  have "passes (Inl e :: error + 'w table_state) (\<lambda>ts. table_ready args (fst ts))" by simp
  then obtain c where "e = External c" using passes_Inl by blast
  with Inl have "collect_results env args w = Inl (External c)"
    by (simp add: collect_results_def)
  then show ?thesis by (intro disjI1 exI)
next
  case (Inr ts)
  define mcols where
    "mcols = (\<Union>item \<in> set (iterator args). set (metric_columns (fst (snd item))))"
  have inv: "table_aligned args mcols (length ss) (length (iterator args)) (fst ts)"
    unfolding mcols_def by (rule build_table_aligned [OF Inr seeds al])
  from pd_DataFrame_aligned [OF inv, of "astype env"] obtain df where
    df: "pd_DataFrame (astype env) (fst ts) = Inr df"
    and rows: "nrows df = length (iterator args) * length ss"
    and keys: "set (dict_keys (columns df)) = set (dict_keys (fst ts))"
    and cols: "\<forall>c \<in> set (columns df). length (snd c) = length (iterator args) * length ss"
    by blast
  from inv have keyset: "set (dict_keys (fst ts)) =
      set (hyperparameters_key_to_save args) \<union> set (reserved_columns args)
      \<union> (if 0 < length (iterator args) * length ss then mcols else {})"
    unfolding table_aligned_def by (elim conjE)
  show ?thesis
  proof (cases "dump_fault env (path_to_results args)")
    case (Some c)
    with Inr df have "collect_results env args w = Inl (External c)"
      by (simp add: collect_results_def joblib_dump_def)
    then show ?thesis by (intro disjI1 exI)
  next
    case None
    define w' where
      "w' = (snd (snd ts))\<lparr>files := dict_set (files (snd (snd ts))) (path_to_results args) df\<rparr>"
    from None Inr df have res: "collect_results env args w = Inr (df, w')"
      by (simp add: collect_results_def joblib_dump_def w'_def)
    from keys keyset have keys': "set (dict_keys (columns df)) =
      set (hyperparameters_key_to_save args) \<union> set (reserved_columns args)
      \<union> (if 0 < length (iterator args) * length ss then mcols else {})"
      by (rule trans)
    show ?thesis
      apply (rule disjI2)
      apply (rule exI [of _ df])
      apply (rule exI [of _ w'])
      apply (intro conjI)
         apply (rule res)
        apply (rule rows)
       apply (rule keys' [unfolded mcols_def])
      apply (rule cols)
      done
  qed
qed

subsection \<open>The combinations a search iterates\<close>





lemma combination_body_no_seeds:
  "seeds args = None \<Longrightarrow> isl (combination_body env args test_iterator item ts)"
  by (simp add: combination_body_def Let_def split: sum.splits)

lemma iterated_combinations_no_seeds:
  assumes "seeds args = None"
  shows "iterated_combinations env args w = take 1 (iterator args)"
proof (cases "iterator args")
  case Nil
  then show ?thesis by (simp add: iterated_combinations_def)
next
  case (Cons item its)
  from combination_body_no_seeds [OF assms, of env "[0]" item "(initial_dataframe_dict args, 0, w)"]
  obtain e where "combination_body env args [0] item (initial_dataframe_dict args, 0, w) = Inl e"
    by (cases "combination_body env args [0] item (initial_dataframe_dict args, 0, w)") simp_all
  with Cons assms show ?thesis by (simp add: iterated_combinations_def)
qed




lemma expected_columns_alt:
  "expected_columns args =
     set (hyperparameters_key_to_save args) \<union> set (reserved_columns args)
     \<union> (if 0 < length (iterator args) * 1
         then (\<Union>item \<in> set (iterator args). set (metric_columns (fst (snd item))))
         else {})"
  by (auto simp: expected_columns_def reserved_columns_def)


subsection \<open>The examples\<close>

lemma example_fit_results_complete:
  assumes "complete_result training_hyperparameters
     [(''train'', [(''loss'', [PyInt 4, PyInt 3]), (''accuracy'', [PyInt 70, PyInt 80])]),
      (''val'', [(''loss'', [PyInt 6, PyInt 5]), (''accuracy'', [PyInt 60, PyInt 65])])]"
  shows "fit_results_complete example_collaborators training_hyperparameters"
    and "fit_results_complete failing_dump_collaborators training_hyperparameters"
  using assms
  by (auto simp: fit_results_complete_def failing_dump_collaborators_def example_collaborators_def)


lemma example_training_complete:
  "complete_result example_training
     [(''train'', [(''loss'', [PyInt 4, PyInt 3]), (''accuracy'', [PyInt 70, PyInt 80])]),
      (''val'', [(''loss'', [PyInt 6, PyInt 5]), (''accuracy'', [PyInt 60, PyInt 65])])]"
  "complete_result example_training_long
     [(''train'', [(''loss'', [PyInt 4, PyInt 3]), (''accuracy'', [PyInt 70, PyInt 80])]),
      (''val'', [(''loss'', [PyInt 6, PyInt 5]), (''accuracy'', [PyInt 60, PyInt 65])])]"
  "complete_result (example_training @ example_metrics)
     [(''train'', [(''loss'', [PyInt 4, PyInt 3]), (''accuracy'', [PyInt 70, PyInt 80])]),
      (''val'', [(''loss'', [PyInt 6, PyInt 5]), (''accuracy'', [PyInt 60, PyInt 65])])]"
  "complete_result (example_training_long @ example_metrics)
     [(''train'', [(''loss'', [PyInt 4, PyInt 3]), (''accuracy'', [PyInt 70, PyInt 80])]),
      (''val'', [(''loss'', [PyInt 6, PyInt 5]), (''accuracy'', [PyInt 60, PyInt 65])])]"
  by code_simp+

lemma example_grid:
  "grid_iterator [t1, t2] [m] = [(0, t1, m), (Suc 0, t2, m)]"
  "grid_iterator [t1] [m] = [(0, t1, m)]"
  by (simp_all add: grid_iterator_def enumerate_list_def upt_rec)


subsection \<open>The table of one seed\<close>

text \<open>
  C8, as stated, fails. With \<open>'time'\<close> and \<open>'seed'\<close> as keys to save, the value of the
  hyperparameter and the value of the run go to the same column, and the table of one
  combination has two rows. With metrics in the second combination only, the columns of
  the metrics have one value and the others two: \<open>pd.DataFrame\<close> raises \<open>ValueError\<close> and
  no table is returned. With a model dictionary that has no \<open>'model_class'\<close>,
  \<open>collect_results\<close> raises \<open>KeyError\<close>.
\<close>

theorem collect_results_single_seed_counterexamples:
  "collect_results example_collaborators
       (example_arguments
          \<lparr>iterator := grid_iterator [example_training]
                         [example_model @ [(''time'', PyInt 1), (''seed'', PyInt 2)]],
           hyperparameters_key_to_save := [''time'', ''seed'']\<rparr>)
       example_world
     = Inr (DataFrame [(''time'', [PyFloat 1, PyFloat 2]), (''seed'', [PyInt 2, PyInt 7])],
            \<lparr>files = [(''results.pkl'',
                       DataFrame [(''time'', [PyFloat 1, PyFloat 2]), (''seed'', [PyInt 2, PyInt 7])])],
             stdout = [], framework = 2\<rparr>)
   \<and> nrows (DataFrame [(''time'', [PyFloat 1, PyFloat 2]), (''seed'', [PyInt 2, PyInt 7])]) = 2
   \<and> length (grid_iterator [example_training]
               [example_model @ [(''time'', PyInt 1), (''seed'', PyInt 2)]]) = 1
   \<and> collect_results example_collaborators
       (example_arguments
          \<lparr>iterator := grid_iterator
                         [example_training, example_training_long @ example_metrics]
                         [example_model]\<rparr>)
       example_world
     = Inl ValueError
   \<and> collect_results example_collaborators
       (example_arguments
          \<lparr>iterator := grid_iterator [example_training] [[(''hidden'', PyInt 8)]]\<rparr>)
       example_world
     = Inl (KeyError ''model_class'')"
  by code_simp

text \<open>
  C8, amended: for a seeds list of length exactly 1, an input that meets the requirements
  of the harness (\<open>well_formed_input\<close>) and keys to save and metrics that keep the
  columns apart (\<open>aligned_input\<close>: the keys distinct, none of them \<open>'time'\<close>, \<open>'seed'\<close>,
  \<open>'train_loss'\<close>, \<open>'val_loss'\<close> or the column of a metric, every combination with the
  same metrics, each once), \<open>collect_results\<close> either passes on the exception of a
  collaborator or returns a table with exactly one row per combination of the iterator;
  its columns are the keys to save plus \<open>'time'\<close> and \<open>'seed'\<close>, plus \<open>'train_loss'\<close> and
  \<open>'val_loss'\<close> when \<open>save_loss_values\<close> is true, plus the \<open>_train\<close> and \<open>_val\<close> columns
  of the metrics; and every column has that one length.
\<close>

theorem collect_results_single_seed_table:
  fixes w :: "'w world"
  assumes "seeds args = Some [s]"
    and "well_formed_input env args"
    and "aligned_input args"
  shows "(\<exists>c. collect_results env args w = Inl (External c))
       \<or> (\<exists>df w'. collect_results env args w = Inr (df, w')
            \<and> nrows df = length (iterator args)
            \<and> set (dict_keys (columns df)) = expected_columns args
            \<and> (\<forall>c \<in> set (columns df). length (snd c) = length (iterator args)))"
  using collect_results_aligned [OF assms, of w]
  unfolding expected_columns_alt by simp

theorem collect_results_single_seed_table_witness:
  "seeds (example_arguments
            \<lparr>iterator := grid_iterator
                           [example_training @ example_metrics,
                            example_training_long @ example_metrics]
                           [example_model],
             save_loss_values := True\<rparr>) = Some [7]
   \<and> well_formed_input example_collaborators
       (example_arguments
            \<lparr>iterator := grid_iterator
                           [example_training @ example_metrics,
                            example_training_long @ example_metrics]
                           [example_model],
             save_loss_values := True\<rparr>)
   \<and> aligned_input
       (example_arguments
            \<lparr>iterator := grid_iterator
                           [example_training @ example_metrics,
                            example_training_long @ example_metrics]
                           [example_model],
             save_loss_values := True\<rparr>)
   \<and> (\<exists>df w'. collect_results example_collaborators
         (example_arguments
            \<lparr>iterator := grid_iterator
                           [example_training @ example_metrics,
                            example_training_long @ example_metrics]
                           [example_model],
             save_loss_values := True\<rparr>)
         example_world = Inr (df, w')
       \<and> df = DataFrame [(''num_epochs'', [PyInt 5, PyInt 10]), (''time'', [PyFloat 2, PyFloat 2]),
                         (''seed'', [PyInt 7, PyInt 7]), (''train_loss'', [PyInt 3, PyInt 3]),
                         (''val_loss'', [PyInt 5, PyInt 5]),
                         (''accuracy_train'', [PyInt 80, PyInt 80]),
                         (''accuracy_val'', [PyInt 65, PyInt 65])]
       \<and> nrows df = 2
       \<and> set (dict_keys (columns df))
           = {''num_epochs'', ''time'', ''seed'', ''train_loss'', ''val_loss'',
              ''accuracy_train'', ''accuracy_val''}
       \<and> (\<forall>c \<in> set (columns df). length (snd c) = 2))"
proof -
  let ?T = "[example_training @ example_metrics, example_training_long @ example_metrics]"
  let ?args = "example_arguments
            \<lparr>iterator := grid_iterator ?T [example_model], save_loss_values := True\<rparr>"
  let ?df = "DataFrame [(''num_epochs'', [PyInt 5, PyInt 10]), (''time'', [PyFloat 2, PyFloat 2]),
                         (''seed'', [PyInt 7, PyInt 7]), (''train_loss'', [PyInt 3, PyInt 3]),
                         (''val_loss'', [PyInt 5, PyInt 5]),
                         (''accuracy_train'', [PyInt 80, PyInt 80]),
                         (''accuracy_val'', [PyInt 65, PyInt 65])]"
  have s: "seeds ?args = Some [7]"
    by (simp add: example_arguments_def)
  have wfc: "well_formed_combination [''num_epochs''] (example_training @ example_metrics, example_model)"
    "well_formed_combination [''num_epochs''] (example_training_long @ example_metrics, example_model)"
    by code_simp+
  have wf: "well_formed_input example_collaborators ?args"
    using wfc example_fit_results_complete(1) [OF example_training_complete(3)]
      example_fit_results_complete(1) [OF example_training_complete(4)]
    by (simp add: well_formed_input_def example_grid example_arguments_def
          well_formed_wandb_params_def)
  have al: "aligned_input ?args"
    by code_simp
  have h: "collect_results example_collaborators ?args example_world
       = Inr (?df, \<lparr>files = [(''results.pkl'', ?df)], stdout = [], framework = 4\<rparr>)"
    by code_simp
  have n: "length (iterator ?args) = 2"
    by (simp add: example_grid)
  from collect_results_single_seed_table [OF s wf al, of example_world] h n
  have "nrows ?df = 2 \<and> set (dict_keys (columns ?df)) = expected_columns ?args
        \<and> (\<forall>c \<in> set (columns ?df). length (snd c) = 2)"
    by simp
  moreover have "expected_columns ?args
      = {''num_epochs'', ''time'', ''seed'', ''train_loss'', ''val_loss'',
         ''accuracy_train'', ''accuracy_val''}"
    by (auto simp: expected_columns_def example_arguments_def example_grid
          metric_columns_def metric_names_def get_metrics_def example_training_def
          example_training_long_def example_metrics_def)
  ultimately show ?thesis using s wf al h by simp
qed

subsection \<open>Where the exceptions come from\<close>




subsection \<open>Grid search\<close>




end
